theory Spec2Isabelle
  imports Main "HOL-Library.AList"
begin

section \<open>Values, records and the log\<close>

text \<open>
  A shallow embedding of \<^verbatim>\<open>src/base.py\<close>: the generic persistence base
  \<^verbatim>\<open>BaseModel\<close> with its two specialisations \<^verbatim>\<open>BaseModelWithName\<close> and
  \<^verbatim>\<open>BaseModelSoftDelete\<close>.

  Python values that occur as column values, filter values and attribute values.
  \<^verbatim>\<open>VNone\<close> is Python's \<^verbatim>\<open>None\<close> and SQL's NULL.
\<close>

datatype val = VNone | VBool bool | VInt int | VStr string

text \<open>Python truthiness, as used by \<^verbatim>\<open>if x:\<close>.\<close>

fun truthy :: "val \<Rightarrow> bool" where
  "truthy VNone = False"
| "truthy (VBool b) = b"
| "truthy (VInt i) = (i \<noteq> 0)"
| "truthy (VStr s) = (s \<noteq> [])"

text \<open>\<^verbatim>\<open>str(x)\<close>, as an f-string applies it.\<close>

fun digit_char :: "nat \<Rightarrow> char" where
  "digit_char n = char_of (48 + n)"

fun str_nat :: "nat \<Rightarrow> string" where
  "str_nat n = (if n < 10 then [digit_char n] else str_nat (n div 10) @ [digit_char (n mod 10)])"

definition str_int :: "int \<Rightarrow> string" where
  "str_int i = (if i < 0 then CHR ''-'' # str_nat (nat (- i)) else str_nat (nat i))"

fun py_str :: "val \<Rightarrow> string" where
  "py_str VNone = ''None''"
| "py_str (VBool b) = (if b then ''True'' else ''False'')"
| "py_str (VInt i) = str_int i"
| "py_str (VStr s) = s"

text \<open>
  The exceptions an operation can end with. Modelled from the spec:
  \<^verbatim>\<open>DatabaseValidationError\<close> and \<^verbatim>\<open>DatabaseIntegrityError\<close> (app.exceptions) are
  the typed errors of the module; the first carries a message and the offending column
  list, the second a message only, as the module constructs them.
  \<^verbatim>\<open>AttributeError n\<close> is Python's failure to find the attribute \<^verbatim>\<open>n\<close> on an
  object. \<^verbatim>\<open>StateAttributeError\<close> is the \<^verbatim>\<open>AttributeError\<close> the ORM raises when it
  finds a plain value where the instance keeps its instrumentation state; its text names
  a member of the state object. \<^verbatim>\<open>TypeError\<close> is Python's (a value that is called
  and is not callable, an argument bound twice, a value refused by a special attribute).
  \<^verbatim>\<open>DBAPIError\<close> is the ORM's wrapping of the driver's refusal of a bound
  parameter.
\<close>

datatype exn =
    DatabaseValidationError string string
  | DatabaseIntegrityError string
  | AttributeError string
  | StateAttributeError
  | TypeError
  | DBAPIError

text \<open>
  What a class attribute that is no mapped column holds: a plain value, an object that
  equals no plain value (a function, a method, the metadata, a set), or an attribute
  that refuses assignment on an instance with the given exception. None of them has the
  operators of a column (\<^verbatim>\<open>asc\<close>, \<^verbatim>\<open>desc\<close>, \<^verbatim>\<open>ilike\<close>).
\<close>

datatype attr_obj = Plain val | Opaque | ReadOnly exn

text \<open>
  A record type (a concrete subclass of \<^verbatim>\<open>BaseModel\<close>). \<^verbatim>\<open>with_name\<close> says that
  it extends \<^verbatim>\<open>BaseModelWithName\<close>, \<^verbatim>\<open>soft_delete\<close> that it extends
  \<^verbatim>\<open>BaseModelSoftDelete\<close>; \<^verbatim>\<open>extra_columns\<close> are the columns the concrete class
  declares itself. \<^verbatim>\<open>search_like_fields\<close> is \<^verbatim>\<open>__search_like_fields__\<close>, a Python set,
  listed in the order the interpreter iterates it. \<^verbatim>\<open>other_attrs\<close> are the further
  attributes of the class that are no mapped columns and that the module does not
  declare itself: those of the concrete class and those Python and the ORM give every
  class. A record type maps columns only: it has no relationship and no other mapped
  attribute with the operators of a column.
\<close>

record model_cls =
  cls_name :: string
  with_name :: bool
  soft_delete :: bool
  extra_columns :: "string list"
  search_like_fields :: "string list"
  other_attrs :: "(string \<times> attr_obj) list"

definition columns :: "model_cls \<Rightarrow> string list" where
  "columns cls =
     [''id'', ''creator_id'', ''created_at'', ''updated_at'']
     @ (if with_name cls then [''name''] else [])
     @ (if soft_delete cls then [''is_active''] else [])
     @ extra_columns cls"

text \<open>
  The attributes the module's classes declare besides the columns: the methods, the
  set of search-like fields, the flag \<^verbatim>\<open>__abstract__\<close>, and \<^verbatim>\<open>metadata\<close> and
  \<^verbatim>\<open>registry\<close> of the declarative base. \<^verbatim>\<open>__class__\<close>, \<^verbatim>\<open>__dict__\<close> and
  \<^verbatim>\<open>__weakref__\<close> are Python's: on an instance the first two refuse a plain value
  with \<^verbatim>\<open>TypeError\<close>, the third is not writable.
\<close>

definition base_attrs :: "model_cls \<Rightarrow> (string \<times> attr_obj) list" where
  "base_attrs cls =
     map (\<lambda>n. (n, Opaque))
       ([''save'', ''update_attrs'', ''get_by_id'', ''delete'', ''get_one_by_filter'',
         ''filter'', ''_build_sorting'', ''create'', ''update'',
         ''_build_search_like_string_stmt'', ''_build_conditions'',
         ''_raise_validation_exception'', ''__str__'', ''__search_like_fields__'',
         ''metadata'', ''registry'']
        @ (if with_name cls then [''get_by_name''] else [])
        @ (if soft_delete cls then [''undelete''] else []))
     @ [(''__abstract__'', Plain (VBool True)),
        (''__class__'', ReadOnly TypeError), (''__dict__'', ReadOnly TypeError),
        (''__weakref__'', ReadOnly (AttributeError ''__weakref__''))]"

definition attr_table :: "model_cls \<Rightarrow> (string \<times> attr_obj) list" where
  "attr_table cls = base_attrs cls @ other_attrs cls"

text \<open>Python's \<^verbatim>\<open>==\<close> on plain values: a boolean is the integer 0 or 1.\<close>

fun py_eq :: "val \<Rightarrow> val \<Rightarrow> bool" where
  "py_eq (VBool a) (VInt b) = ((if a then 1 else 0) = b)"
| "py_eq (VInt a) (VBool b) = (a = (if b then 1 else 0))"
| "py_eq a b = (a = b)"

datatype level = DEBUG | INFO | ERROR

type_synonym log_entry = "level \<times> string"

section \<open>The regular expressions of the error classifier\<close>

text \<open>
  The two compiled patterns are
  \<^verbatim>\<open>Key \((.*)\)=\(.*\) already exists|$\<close> and
  \<^verbatim>\<open>Key \((.*)\)=\(.*\) is not present in table|$\<close>.
  A pattern is a list of alternatives, each a sequence of items: a literal, a greedy
  \<^verbatim>\<open>.*\<close>, the capturing group \<^verbatim>\<open>(.*)\<close>, and \<^verbatim>\<open>$\<close>.
\<close>

datatype rx = Lit string | DotStar | GroupDotStar | Dollar

type_synonym regex = "rx list list"

definition newline :: char where
  "newline = CHR 0x0A"

text \<open>\<^verbatim>\<open>.\<close> matches every character but a newline: the longest run \<^verbatim>\<open>.*\<close> can take.\<close>

definition dot_run :: "string \<Rightarrow> nat" where
  "dot_run s = length (takeWhile (\<lambda>c. c \<noteq> newline) s)"

fun first_some :: "'a option list \<Rightarrow> 'a option" where
  "first_some [] = None"
| "first_some (None # xs) = first_some xs"
| "first_some (Some x # xs) = Some x"

text \<open>The lengths a greedy \<^verbatim>\<open>.*\<close> tries, the longest first (backtracking).\<close>

definition greedy_lengths :: "string \<Rightarrow> nat list" where
  "greedy_lengths s = rev [0 ..< Suc (dot_run s)]"

text \<open>
  \<^verbatim>\<open>match_here items s g\<close> matches the items at the start of \<^verbatim>\<open>s\<close>; \<^verbatim>\<open>g\<close> is
  what group 1 has captured so far. The result is the group's text of the first
  successful match in backtracking order.
\<close>

fun match_here :: "rx list \<Rightarrow> string \<Rightarrow> string \<Rightarrow> string option" where
  "match_here [] s g = Some g"
| "match_here (Lit l # rs) s g =
     (if take (length l) s = l then match_here rs (drop (length l) s) g else None)"
| "match_here (DotStar # rs) s g =
     first_some (map (\<lambda>n. match_here rs (drop n s) g) (greedy_lengths s))"
| "match_here (GroupDotStar # rs) s g =
     first_some (map (\<lambda>n. match_here rs (drop n s) (take n s)) (greedy_lengths s))"
| "match_here (Dollar # rs) s g =
     (if s = [] \<or> s = [newline] then match_here rs s g else None)"

text \<open>
  The alternatives at one position, left to right. A group that takes no part in the
  match is reported by \<^verbatim>\<open>re.findall\<close> as the empty string.
\<close>

definition match_alts :: "regex \<Rightarrow> string \<Rightarrow> string option" where
  "match_alts re s = first_some (map (\<lambda>alt. match_here alt s []) re)"

text \<open>
  \<^verbatim>\<open>re.findall(re, s)\<close> with one group returns the list of the group's texts of the
  matches, scanning from the left. The classifier reads only whether the list is empty
  and its element 0, so the model returns the head of that list: the group of the
  leftmost match.
\<close>

fun re_findall_first :: "regex \<Rightarrow> string \<Rightarrow> string option" where
  "re_findall_first re [] = match_alts re []"
| "re_findall_first re (c # cs) =
     (case match_alts re (c # cs) of
        Some g \<Rightarrow> Some g
      | None \<Rightarrow> re_findall_first re cs)"

definition RE_ALREADY_EXIST_COMPILED :: regex where
  "RE_ALREADY_EXIST_COMPILED =
     [[Lit ''Key ('', GroupDotStar, Lit '')=('', DotStar, Lit '') already exists''], [Dollar]]"

definition RE_NOT_PRESENT_COMPILED :: regex where
  "RE_NOT_PRESENT_COMPILED =
     [[Lit ''Key ('', GroupDotStar, Lit '')=('', DotStar, Lit '') is not present in table''],
      [Dollar]]"

section \<open>Rows, predicates and statements\<close>

text \<open>
  A row of the record type's table: column name and value. A column the row does not
  list is NULL.
\<close>

type_synonym row = "(string \<times> val) list"

definition col_val :: "row \<Rightarrow> string \<Rightarrow> val" where
  "col_val r f = (case map_of r f of None \<Rightarrow> VNone | Some v \<Rightarrow> v)"

text \<open>
  SQL \<^verbatim>\<open>LIKE\<close>: \<^verbatim>\<open>%\<close> stands for any text, \<^verbatim>\<open>_\<close> for any one character, and a
  backslash takes the next pattern character literally. A pattern ending in a backslash
  matches nothing here. \<^verbatim>\<open>ILIKE\<close> compares both sides in lower case (ASCII letters).
\<close>

fun like_match :: "string \<Rightarrow> string \<Rightarrow> bool" where
  "like_match [] s = (s = [])"
| "like_match (p # ps) s =
     (if p = CHR ''%'' then
        (like_match ps s \<or> (case s of [] \<Rightarrow> False | _ # t \<Rightarrow> like_match (p # ps) t))
      else if p = CHR ''_'' then
        (case s of [] \<Rightarrow> False | _ # t \<Rightarrow> like_match ps t)
      else if p = CHR 0x5C then
        (case ps of
           [] \<Rightarrow> False
         | q # qs \<Rightarrow> (case s of [] \<Rightarrow> False | c # t \<Rightarrow> c = q \<and> like_match qs t))
      else
        (case s of [] \<Rightarrow> False | c # t \<Rightarrow> c = p \<and> like_match ps t))"

definition lower_char :: "char \<Rightarrow> char" where
  "lower_char c =
     (if 65 \<le> (of_char c :: nat) \<and> (of_char c :: nat) \<le> 90
      then char_of ((of_char c :: nat) + 32) else c)"

definition ilike_match :: "string \<Rightarrow> string \<Rightarrow> bool" where
  "ilike_match p s = like_match (map lower_char p) (map lower_char s)"

text \<open>
  The predicates the module builds: \<^verbatim>\<open>field == value\<close>, \<^verbatim>\<open>field.ilike(pattern)\<close>,
  and the clause lists of \<^verbatim>\<open>and_(*cs)\<close> and \<^verbatim>\<open>or_(*cs)\<close>. \<^verbatim>\<open>PyBool b\<close> is
  a Python boolean among the clauses (what \<^verbatim>\<open>==\<close> gives on an attribute that is no
  column); the ORM reads it as the constant \<^verbatim>\<open>true()\<close> or \<^verbatim>\<open>false()\<close>.
\<close>

datatype bop = AndOp | OrOp

datatype cond = Eq string val | ILike string string | BoolList bop "cond list" | PyBool bool

definition sa_and :: "cond list \<Rightarrow> cond" where
  "sa_and cs = BoolList AndOp cs"

definition sa_or :: "cond list \<Rightarrow> cond" where
  "sa_or cs = BoolList OrOp cs"

text \<open>
  The value of a predicate on a row. \<^verbatim>\<open>field == None\<close> is rendered \<^verbatim>\<open>IS NULL\<close>, and
  a comparison with NULL is not true, so equality of the two values decides
  \<^verbatim>\<open>Eq\<close>. SQLAlchemy renders a clause list with no element as the empty text and
  leaves an element with empty text out of the list around it: such a predicate has no
  value (\<^verbatim>\<open>None\<close>) and constrains nothing.
\<close>

fun cond_eval :: "cond \<Rightarrow> row \<Rightarrow> bool option" where
  "cond_eval (Eq f v) r = Some (col_val r f = v)"
| "cond_eval (ILike f p) r =
     Some (case col_val r f of VStr s \<Rightarrow> ilike_match p s | _ \<Rightarrow> False)"
| "cond_eval (PyBool b) r = Some b"
| "cond_eval (BoolList b cs) r =
     (let vs = concat (map (\<lambda>c. case cond_eval c r of None \<Rightarrow> [] | Some v \<Rightarrow> [v]) cs)
      in if vs = [] then None
         else Some (case b of AndOp \<Rightarrow> list_all id vs | OrOp \<Rightarrow> list_ex id vs))"

definition where_true :: "cond \<Rightarrow> row \<Rightarrow> bool" where
  "where_true c r = (case cond_eval c r of None \<Rightarrow> True | Some v \<Rightarrow> v)"

datatype direction = Asc | Desc

text \<open>\<^verbatim>\<open>OrderClause f d n\<close>: order by column \<^verbatim>\<open>f\<close> in direction \<^verbatim>\<open>d\<close>; \<^verbatim>\<open>n\<close> says
  that \<^verbatim>\<open>.nulls_last()\<close> was applied.\<close>

datatype order_clause = OrderClause string direction bool

fun clause_field :: "order_clause \<Rightarrow> string" where
  "clause_field (OrderClause f d n) = f"

fun clause_direction :: "order_clause \<Rightarrow> direction" where
  "clause_direction (OrderClause f d n) = d"

fun clause_nulls_last :: "order_clause \<Rightarrow> bool" where
  "clause_nulls_last (OrderClause f d n) = n"

record select_stmt =
  where_criteria :: "cond list"
  order_by_clauses :: "order_clause list"
  limit_clause :: "nat option"
  offset_clause :: "nat option"

definition select_cls :: select_stmt where
  "select_cls = \<lparr>where_criteria = [], order_by_clauses = [], limit_clause = None,
                  offset_clause = None\<rparr>"

definition sa_where :: "select_stmt \<Rightarrow> cond \<Rightarrow> select_stmt" where
  "sa_where stmt c = stmt\<lparr>where_criteria := where_criteria stmt @ [c]\<rparr>"

definition sa_order_by :: "select_stmt \<Rightarrow> order_clause list \<Rightarrow> select_stmt" where
  "sa_order_by stmt cs = stmt\<lparr>order_by_clauses := order_by_clauses stmt @ cs\<rparr>"

definition sa_limit :: "select_stmt \<Rightarrow> nat \<Rightarrow> select_stmt" where
  "sa_limit stmt n = stmt\<lparr>limit_clause := Some n\<rparr>"

definition sa_offset :: "select_stmt \<Rightarrow> nat \<Rightarrow> select_stmt" where
  "sa_offset stmt n = stmt\<lparr>offset_clause := Some n\<rparr>"

text \<open>The WHERE clause: the criteria of all \<^verbatim>\<open>where\<close> calls, joined by AND.\<close>

definition stmt_holds :: "select_stmt \<Rightarrow> row \<Rightarrow> bool" where
  "stmt_holds stmt r = list_all (\<lambda>c. where_true c r) (where_criteria stmt)"

subsection \<open>ORDER BY\<close>

datatype cmp = LT | EQ | GT

fun cmp_string :: "string \<Rightarrow> string \<Rightarrow> cmp" where
  "cmp_string [] [] = EQ"
| "cmp_string [] (y # ys) = LT"
| "cmp_string (x # xs) [] = GT"
| "cmp_string (x # xs) (y # ys) =
     (if (of_char x :: nat) < of_char y then LT
      else if (of_char y :: nat) < of_char x then GT
      else cmp_string xs ys)"

fun val_rank :: "val \<Rightarrow> nat" where
  "val_rank VNone = 3"
| "val_rank (VBool b) = 0"
| "val_rank (VInt i) = 1"
| "val_rank (VStr s) = 2"

text \<open>Values of one column have one type; values of two types are ordered by type.\<close>

fun cmp_val :: "val \<Rightarrow> val \<Rightarrow> cmp" where
  "cmp_val (VInt a) (VInt b) = (if a < b then LT else if b < a then GT else EQ)"
| "cmp_val (VStr a) (VStr b) = cmp_string a b"
| "cmp_val (VBool a) (VBool b) = (if a = b then EQ else if b then LT else GT)"
| "cmp_val a b =
     (if val_rank a < val_rank b then LT else if val_rank b < val_rank a then GT else EQ)"

fun flip_cmp :: "cmp \<Rightarrow> cmp" where
  "flip_cmp LT = GT"
| "flip_cmp GT = LT"
| "flip_cmp EQ = EQ"

text \<open>
  One clause. With NULLS LAST a NULL follows every value in both directions; without
  it NULL counts as the largest value (the default of PostgreSQL).
\<close>

fun cmp_clause :: "order_clause \<Rightarrow> row \<Rightarrow> row \<Rightarrow> cmp" where
  "cmp_clause (OrderClause f d n) r1 r2 =
     (let a = col_val r1 f; b = col_val r2 f in
      if n \<and> a = VNone \<and> b = VNone then EQ
      else if n \<and> a = VNone then GT
      else if n \<and> b = VNone then LT
      else (case d of Asc \<Rightarrow> cmp_val a b | Desc \<Rightarrow> flip_cmp (cmp_val a b)))"

fun cmp_rows :: "order_clause list \<Rightarrow> row \<Rightarrow> row \<Rightarrow> cmp" where
  "cmp_rows [] r1 r2 = EQ"
| "cmp_rows (c # cs) r1 r2 =
     (case cmp_clause c r1 r2 of EQ \<Rightarrow> cmp_rows cs r1 r2 | LT \<Rightarrow> LT | GT \<Rightarrow> GT)"

fun insert_row :: "order_clause list \<Rightarrow> row \<Rightarrow> row list \<Rightarrow> row list" where
  "insert_row cs r [] = [r]"
| "insert_row cs r (x # xs) =
     (if cmp_rows cs r x = LT then r # x # xs else x # insert_row cs r xs)"

text \<open>A stable sort; with no clause the rows keep the order of the table.\<close>

definition order_rows :: "order_clause list \<Rightarrow> row list \<Rightarrow> row list" where
  "order_rows cs rs = fold (insert_row cs) rs []"

definition apply_window :: "select_stmt \<Rightarrow> row list \<Rightarrow> row list" where
  "apply_window stmt rs =
     (let rs1 = (case offset_clause stmt of None \<Rightarrow> rs | Some k \<Rightarrow> drop k rs)
      in case limit_clause stmt of None \<Rightarrow> rs1 | Some n \<Rightarrow> take n rs1)"

text \<open>The rows a statement selects from a table.\<close>

definition result_rows :: "row list \<Rightarrow> select_stmt \<Rightarrow> row list" where
  "result_rows tbl stmt =
     apply_window stmt (order_rows (order_by_clauses stmt) (filter (stmt_holds stmt) tbl))"

section \<open>Instances, the session and the backend\<close>

text \<open>
  An instance of a record type: its attribute dictionary, and the primary key under
  which the session holds it as persistent (\<^verbatim>\<open>None\<close> for an instance that has not
  been flushed). Reading a column attribute that was never set gives \<^verbatim>\<open>None\<close>.
\<close>

record inst =
  attrs :: "(string \<times> val) list"
  identity :: "val option"

definition getattr_inst :: "inst \<Rightarrow> string \<Rightarrow> val" where
  "getattr_inst ob k = col_val (attrs ob) k"

text \<open>
  \<^verbatim>\<open>setattr(self, k, v)\<close>. The declarative base defines no \<^verbatim>\<open>__setattr__\<close> and no
  \<^verbatim>\<open>__slots__\<close>: the assignment stores the value under any name.
\<close>

definition setattr_inst :: "inst \<Rightarrow> string \<Rightarrow> val \<Rightarrow> inst" where
  "setattr_inst ob k v = ob\<lparr>attrs := AList.update k v (attrs ob)\<rparr>"

text \<open>
  The failure the backend raises on a constraint violation: \<^verbatim>\<open>exc.orig.args\<close> (a
  tuple of message texts, possibly empty) and the text \<^verbatim>\<open>str(exc)\<close>.
\<close>

record integrity_error =
  orig_args :: "string list"
  exc_text :: string

text \<open>
  The world of one operation: the table of the record type, the backend's id sequence,
  the backend's constraint check (from the row to write and the other rows of the table
  to the failure it raises, if any), the values the driver and the backend accept as a
  bound parameter compared with a column (those of the column's type), and the module's
  logger. The session holds one instance at a time.
\<close>

record env =
  db_table :: "row list"
  db_next_id :: int
  db_check :: "row \<Rightarrow> row list \<Rightarrow> integrity_error option"
  db_accepts :: "string \<Rightarrow> val \<Rightarrow> bool"
  log :: "log_entry list"

definition logger :: "level \<Rightarrow> string \<Rightarrow> env \<Rightarrow> env" where
  "logger lv msg e = e\<lparr>log := log e @ [(lv, msg)]\<rparr>"

text \<open>The row the backend writes for an instance: its mapped columns only.\<close>

definition row_of :: "model_cls \<Rightarrow> inst \<Rightarrow> row" where
  "row_of cls ob = map (\<lambda>c. (c, getattr_inst ob c)) (columns cls)"

definition load_inst :: "row \<Rightarrow> inst" where
  "load_inst r = \<lparr>attrs = r, identity = Some (col_val r ''id'')\<rparr>"

text \<open>
  \<^verbatim>\<open>db.add(self)\<close> followed by \<^verbatim>\<open>db.flush()\<close>. An instance without identity is
  inserted, with an id from the sequence when it has none; a persistent one updates the
  row of its identity. The backend's check decides whether the write is a constraint
  violation. The column defaults other than the id (the audit timestamps of
  \<^verbatim>\<open>utcnow\<close>, the default of the active flag) are left out: a column never set is
  written as NULL.
\<close>

definition db_flush :: "model_cls \<Rightarrow> inst \<Rightarrow> env \<Rightarrow> integrity_error + (inst \<times> env)" where
  "db_flush cls ob e =
     (case identity ob of
        None \<Rightarrow>
          (let fresh = (getattr_inst ob ''id'' = VNone);
               ob1 = (if fresh then setattr_inst ob ''id'' (VInt (db_next_id e)) else ob);
               r = row_of cls ob1
           in case db_check e r (db_table e) of
                Some exc \<Rightarrow> Inl exc
              | None \<Rightarrow>
                  Inr (ob1\<lparr>identity := Some (getattr_inst ob1 ''id'')\<rparr>,
                       e\<lparr>db_table := db_table e @ [r],
                         db_next_id := (if fresh then db_next_id e + 1 else db_next_id e)\<rparr>))
      | Some i \<Rightarrow>
          (let r = row_of cls ob
           in case db_check e r (filter (\<lambda>x. col_val x ''id'' \<noteq> i) (db_table e)) of
                Some exc \<Rightarrow> Inl exc
              | None \<Rightarrow>
                  Inr (ob\<lparr>identity := Some (getattr_inst ob ''id'')\<rparr>,
                       e\<lparr>db_table :=
                           map (\<lambda>x. if col_val x ''id'' = i then r else x) (db_table e)\<rparr>)))"

text \<open>\<^verbatim>\<open>db.refresh(self)\<close>: the column attributes are read back from the row.\<close>

definition db_refresh :: "inst \<Rightarrow> env \<Rightarrow> inst" where
  "db_refresh ob e =
     (case identity ob of
        None \<Rightarrow> ob
      | Some i \<Rightarrow>
          (case find (\<lambda>x. col_val x ''id'' = i) (db_table e) of
             None \<Rightarrow> ob
           | Some r \<Rightarrow> ob\<lparr>attrs := fold (\<lambda>(k, v) a. AList.update k v a) r (attrs ob)\<rparr>))"

text \<open>
  \<^verbatim>\<open>result.scalars().unique()\<close>: a row of a primary key already seen is dropped.
\<close>

fun unique_from :: "val option list \<Rightarrow> inst list \<Rightarrow> inst list" where
  "unique_from seen [] = []"
| "unique_from seen (ob # obs) =
     (if identity ob \<in> set seen then unique_from seen obs
      else ob # unique_from (identity ob # seen) obs)"

definition db_execute_unique :: "env \<Rightarrow> select_stmt \<Rightarrow> inst list" where
  "db_execute_unique e stmt = unique_from [] (map load_inst (result_rows (db_table e) stmt))"

text \<open>\<^verbatim>\<open>select(func.count()).select_from(query.subquery())\<close>, then \<^verbatim>\<open>or 0\<close>.\<close>

definition db_count :: "env \<Rightarrow> select_stmt \<Rightarrow> nat" where
  "db_count e stmt =
     (let n = length (result_rows (db_table e) stmt) in if n \<noteq> 0 then n else 0)"

text \<open>
  The bound parameters of a predicate: the values compared with a column.
  \<^verbatim>\<open>field == None\<close> is rendered \<^verbatim>\<open>IS NULL\<close> and binds nothing.
\<close>

fun cond_params :: "cond \<Rightarrow> (string \<times> val) list" where
  "cond_params (Eq f v) = (if v = VNone then [] else [(f, v)])"
| "cond_params (ILike f p) = []"
| "cond_params (PyBool b) = []"
| "cond_params (BoolList b cs) = concat (map cond_params cs)"

text \<open>
  A parameter is taken when the backend accepts the value for the column; a value that
  some row holds in the column is a value of the column's type.
\<close>

definition param_ok :: "env \<Rightarrow> string \<times> val \<Rightarrow> bool" where
  "param_ok e p =
     (case p of (f, v) \<Rightarrow> db_accepts e f v \<or> list_ex (\<lambda>r. col_val r f = v) (db_table e))"

text \<open>
  \<^verbatim>\<open>await db.execute(query)\<close> and \<^verbatim>\<open>result.scalars().unique()\<close> of a lookup: the
  driver refuses a parameter that is no value of its column (\<^verbatim>\<open>DBAPIError\<close>).
\<close>

definition db_execute :: "env \<Rightarrow> select_stmt \<Rightarrow> exn + inst list" where
  "db_execute e stmt =
     (if list_all (param_ok e) (concat (map cond_params (where_criteria stmt)))
      then Inr (db_execute_unique e stmt)
      else Inl DBAPIError)"

section \<open>The error classifier and the record lifecycle\<close>

text \<open>
  \<^verbatim>\<open>info and (match := re.findall(RE, info[0])) and match[0]\<close>: the group of the
  first match when the whole condition is truthy.
\<close>

definition truthy_match :: "regex \<Rightarrow> string list \<Rightarrow> string option" where
  "truthy_match re info =
     (case info of
        [] \<Rightarrow> None
      | m # _ \<Rightarrow>
          (case re_findall_first re m of
             None \<Rightarrow> None
           | Some g \<Rightarrow> if g \<noteq> [] then Some g else None))"

definition raise_validation_exception :: "model_cls \<Rightarrow> integrity_error \<Rightarrow> env \<Rightarrow> exn \<times> env" where
  "raise_validation_exception cls exc e =
     (let info = orig_args exc in
      case truthy_match RE_ALREADY_EXIST_COMPILED info of
        Some g \<Rightarrow>
          (DatabaseValidationError (''Unique constraint violated for '' @ cls_name cls) g, e)
      | None \<Rightarrow>
          (case truthy_match RE_NOT_PRESENT_COMPILED info of
             Some g \<Rightarrow>
               (DatabaseValidationError
                  (''Foreign key constraint violated for '' @ cls_name cls) g, e)
           | None \<Rightarrow>
               (DatabaseIntegrityError (''Integrity error for '' @ cls_name cls),
                logger ERROR
                  (''Integrity error for '' @ cls_name cls @ '': '' @ exc_text exc) e)))"

definition save :: "model_cls \<Rightarrow> inst \<Rightarrow> env \<Rightarrow> (exn + inst) \<times> env" where
  "save cls ob e =
     (let obj_id = getattr_inst ob ''id'';
          class_name = cls_name cls
      in case db_flush cls ob e of
           Inl exc \<Rightarrow>
             (case raise_validation_exception cls exc e of (x, e1) \<Rightarrow> (Inl x, e1))
         | Inr (ob1, e1) \<Rightarrow>
             (let e2 =
                (if obj_id = VNone
                 then logger INFO
                        (class_name @ '' with id='' @ py_str (getattr_inst ob1 ''id'')
                         @ '' is created'') e1
                 else logger INFO
                        (class_name @ '' with id='' @ py_str obj_id @ '' is updated'') e1)
              in (Inr (db_refresh ob1 e2), e2)))"

text \<open>
  \<^verbatim>\<open>update_attrs\<close>: the loop of \<^verbatim>\<open>setattr(self, k, v)\<close>. Its local state is the
  instance and whether an earlier key has overwritten \<^verbatim>\<open>_sa_instance_state\<close>, where
  the ORM keeps the instrumentation state of the instance. A column is set through the
  ORM's descriptor, which needs that state; an attribute that refuses assignment raises;
  every other name is stored on the instance, also the name of a method, which it then
  shadows.
\<close>

fun update_attrs ::
  "model_cls \<Rightarrow> bool \<Rightarrow> inst \<Rightarrow> (string \<times> val) list \<Rightarrow> exn + (bool \<times> inst)" where
  "update_attrs cls broken ob [] = Inr (broken, ob)"
| "update_attrs cls broken ob ((k, v) # kwargs) =
     (if k \<in> set (columns cls) then
        (if broken then Inl StateAttributeError
         else update_attrs cls broken (setattr_inst ob k v) kwargs)
      else if k = ''_sa_instance_state'' then update_attrs cls True ob kwargs
      else
        (case map_of (attr_table cls) k of
           Some (ReadOnly x) \<Rightarrow> Inl x
         | _ \<Rightarrow> update_attrs cls broken (setattr_inst ob k v) kwargs))"

text \<open>
  \<^verbatim>\<open>update\<close>. In \<^verbatim>\<open>self.update_attrs(**data)\<close> a key \<^verbatim>\<open>self\<close> collides with the
  method's own parameter, and the call fails before any assignment. After the loop
  \<^verbatim>\<open>self.save\<close> is looked up on the instance: a key \<^verbatim>\<open>save\<close> has put a plain
  value there, and calling it is a \<^verbatim>\<open>TypeError\<close>. \<^verbatim>\<open>save\<close> hands the instance to
  the session, which fails on an overwritten state; and on a failed flush it looks up
  \<^verbatim>\<open>self._raise_validation_exception\<close>, which a key of that name has shadowed.
\<close>

definition update :: "model_cls \<Rightarrow> inst \<Rightarrow> env \<Rightarrow> (string \<times> val) list \<Rightarrow> (exn + inst) \<times> env" where
  "update cls ob e data =
     (if ''self'' \<in> set (map fst data) then (Inl TypeError, e)
      else
        (case update_attrs cls False ob data of
           Inl x \<Rightarrow> (Inl x, e)
         | Inr (broken, ob1) \<Rightarrow>
             if ''save'' \<in> set (map fst data) then (Inl TypeError, e)
             else if broken then (Inl StateAttributeError, e)
             else if isl (db_flush cls ob1 e)
                     \<and> ''_raise_validation_exception'' \<in> set (map fst data)
             then (Inl TypeError, e)
             else save cls ob1 e))"

text \<open>\<^verbatim>\<open>BaseModelSoftDelete.delete\<close> and \<^verbatim>\<open>BaseModelSoftDelete.undelete\<close>.\<close>

definition soft_delete_op :: "model_cls \<Rightarrow> inst \<Rightarrow> env \<Rightarrow> (exn + inst) \<times> env" where
  "soft_delete_op cls ob e = save cls (setattr_inst ob ''is_active'' (VBool False)) e"

definition undelete :: "model_cls \<Rightarrow> inst \<Rightarrow> env \<Rightarrow> (exn + inst) \<times> env" where
  "undelete cls ob e = save cls (setattr_inst ob ''is_active'' (VBool True)) e"

section \<open>Reading\<close>

definition get_one_by_filter :: "model_cls \<Rightarrow> env \<Rightarrow> cond list \<Rightarrow> exn + inst option" where
  "get_one_by_filter cls e conditions =
     (let query = sa_where select_cls (sa_and conditions)
      in case db_execute e query of
           Inl x \<Rightarrow> Inl x
         | Inr result \<Rightarrow> Inr (case result of [] \<Rightarrow> None | ob # _ \<Rightarrow> Some ob))"

definition get_by_id :: "model_cls \<Rightarrow> env \<Rightarrow> val \<Rightarrow> exn + inst option" where
  "get_by_id cls e item_id = get_one_by_filter cls e [Eq ''id'' item_id]"

text \<open>\<^verbatim>\<open>BaseModelWithName.get_by_name\<close>, for a record type with \<^verbatim>\<open>with_name\<close>.\<close>

definition get_by_name :: "model_cls \<Rightarrow> env \<Rightarrow> string \<Rightarrow> exn + inst option" where
  "get_by_name cls e name = get_one_by_filter cls e [Eq ''name'' (VStr name)]"

section \<open>Building and running a filtered query\<close>

text \<open>
  \<^verbatim>\<open>getattr(cls, name)\<close>: a mapped column, another attribute of the class, or
  \<^verbatim>\<open>AttributeError\<close> when the class has no attribute of the name.
\<close>

datatype cls_attr = ColumnAttr string | OtherAttr attr_obj

definition getattr_cls :: "model_cls \<Rightarrow> string \<Rightarrow> exn + cls_attr" where
  "getattr_cls cls name =
     (if name \<in> set (columns cls) then Inr (ColumnAttr name)
      else (case map_of (attr_table cls) name of
              Some a \<Rightarrow> Inr (OtherAttr a)
            | None \<Rightarrow> Inl (AttributeError name)))"

text \<open>
  \<^verbatim>\<open>field == value\<close>: an SQL comparison on a column, a Python boolean on anything
  else.
\<close>

fun attr_eq :: "cls_attr \<Rightarrow> val \<Rightarrow> cond" where
  "attr_eq (ColumnAttr f) v = Eq f v"
| "attr_eq (OtherAttr (Plain w)) v = PyBool (py_eq w v)"
| "attr_eq (OtherAttr a) v = PyBool False"

fun build_conditions :: "model_cls \<Rightarrow> (string \<times> val) list \<Rightarrow> exn + cond list" where
  "build_conditions cls [] = Inr []"
| "build_conditions cls ((field_name, v) # fs) =
     (case getattr_cls cls field_name of
        Inl x \<Rightarrow> Inl x
      | Inr field \<Rightarrow>
          (case build_conditions cls fs of
             Inl x \<Rightarrow> Inl x
           | Inr result \<Rightarrow> Inr (attr_eq field v # result)))"

text \<open>
  A sort request. The directions are the two of the docstring, \<^verbatim>\<open>asc\<close> and
  \<^verbatim>\<open>desc\<close>. Modelled from the spec: \<^verbatim>\<open>BaseSorting\<close> (app.apps.base.schemas) is an
  object whose \<^verbatim>\<open>sort_dict()\<close> gives the ordered mapping from field name to
  direction; as an object it is truthy. The other form is the plain dictionary.
\<close>

datatype sorting = BaseSorting "(string \<times> direction) list" | SortDict "(string \<times> direction) list"

fun sort_fields_of :: "sorting \<Rightarrow> (string \<times> direction) list" where
  "sort_fields_of (BaseSorting d) = d"
| "sort_fields_of (SortDict d) = d"

fun sorting_truthy :: "sorting \<Rightarrow> bool" where
  "sorting_truthy (BaseSorting d) = True"
| "sorting_truthy (SortDict d) = (d \<noteq> [])"

fun direction_name :: "direction \<Rightarrow> string" where
  "direction_name Asc = ''asc''"
| "direction_name Desc = ''desc''"

text \<open>
  \<^verbatim>\<open>getattr(field, direction)().nulls_last()\<close>: only a column has the method of the
  direction.
\<close>

fun attr_order :: "cls_attr \<Rightarrow> direction \<Rightarrow> exn + order_clause" where
  "attr_order (ColumnAttr f) d = Inr (OrderClause f d True)"
| "attr_order (OtherAttr a) d = Inl (AttributeError (direction_name d))"

fun build_sorting_loop :: "model_cls \<Rightarrow> (string \<times> direction) list \<Rightarrow> exn + order_clause list" where
  "build_sorting_loop cls [] = Inr []"
| "build_sorting_loop cls ((field_name, d) # fs) =
     (case getattr_cls cls field_name of
        Inl x \<Rightarrow> Inl x
      | Inr field \<Rightarrow>
          (case attr_order field d of
             Inl x \<Rightarrow> Inl x
           | Inr clause \<Rightarrow>
               (case build_sorting_loop cls fs of
                  Inl x \<Rightarrow> Inl x
                | Inr result \<Rightarrow> Inr (clause # result))))"

definition build_sorting :: "model_cls \<Rightarrow> sorting \<Rightarrow> exn + order_clause list" where
  "build_sorting cls srt = build_sorting_loop cls (sort_fields_of srt)"

fun getattr_all :: "model_cls \<Rightarrow> string list \<Rightarrow> exn + cls_attr list" where
  "getattr_all cls [] = Inr []"
| "getattr_all cls (n # ns) =
     (case getattr_cls cls n of
        Inl x \<Rightarrow> Inl x
      | Inr f \<Rightarrow> (case getattr_all cls ns of Inl x \<Rightarrow> Inl x | Inr fs \<Rightarrow> Inr (f # fs)))"

text \<open>\<^verbatim>\<open>[field.ilike(sls_stmt) for field in fields]\<close>: only a column has \<^verbatim>\<open>ilike\<close>.\<close>

fun ilike_all :: "cls_attr list \<Rightarrow> string \<Rightarrow> exn + cond list" where
  "ilike_all [] p = Inr []"
| "ilike_all (ColumnAttr f # fs) p =
     (case ilike_all fs p of Inl x \<Rightarrow> Inl x | Inr cs \<Rightarrow> Inr (ILike f p # cs))"
| "ilike_all (OtherAttr a # fs) p = Inl (AttributeError ''ilike'')"

text \<open>\<^verbatim>\<open>f"%{search_like_string}%".replace(" ", "%")\<close>\<close>

definition sls_pattern :: "val \<Rightarrow> string" where
  "sls_pattern search_like_string =
     map (\<lambda>c. if c = CHR '' '' then CHR ''%'' else c)
       (''%'' @ py_str search_like_string @ ''%'')"

definition build_search_like_string_stmt ::
  "model_cls \<Rightarrow> select_stmt \<Rightarrow> val \<Rightarrow> exn + select_stmt" where
  "build_search_like_string_stmt cls stmt search_like_string =
     (case getattr_all cls (search_like_fields cls) of
        Inl x \<Rightarrow> Inl x
      | Inr flds \<Rightarrow>
          (let sls_stmt = sls_pattern search_like_string
           in case ilike_all flds sls_stmt of
                Inl x \<Rightarrow> Inl x
              | Inr ilikes \<Rightarrow> Inr (sa_where stmt (sa_or ilikes))))"

text \<open>A filters dictionary, in insertion order; \<^verbatim>\<open>dict.get\<close> gives \<^verbatim>\<open>None\<close> for a
  missing key.\<close>

type_synonym filters = "(string \<times> val) list"

definition dict_get :: "filters \<Rightarrow> string \<Rightarrow> val" where
  "dict_get fs k = (case map_of fs k of None \<Rightarrow> VNone | Some v \<Rightarrow> v)"

text \<open>Modelled from the spec: \<^verbatim>\<open>Pagination\<close> (app.apps.base.schemas), a limit and an
  offset; as an object it is truthy.\<close>

record pagination =
  pg_limit :: nat
  pg_offset :: nat

datatype filter_result = Rows "inst list" | Page "inst list" nat

text \<open>
  The local variables of \<^verbatim>\<open>filter\<close>. \<^verbatim>\<open>fr_filters\<close> is the caller's dictionary (the
  parameter is never rebound), \<^verbatim>\<open>fr_conditions\<close> the list the local name
  \<^verbatim>\<open>conditions\<close> is bound to.
\<close>

record frame =
  fr_stmt :: select_stmt
  fr_conditions :: "cond list"
  fr_filters :: "filters option"

text \<open>
  \<^verbatim>\<open>conditions = conditions or []\<close>: a non-empty list of the caller stays the same
  object (the flag is true); \<^verbatim>\<open>None\<close> and the empty list are falsy, and the local
  name is bound to a new list.
\<close>

definition conditions_or_new :: "cond list option \<Rightarrow> bool \<times> cond list" where
  "conditions_or_new conditions =
     (case conditions of
        None \<Rightarrow> (False, [])
      | Some cs \<Rightarrow> if cs \<noteq> [] then (True, cs) else (False, []))"

text \<open>
  The block under \<^verbatim>\<open>if filters:\<close>. The result is the exception raised, if any, and
  the local variables at that point.
\<close>

definition filters_block :: "model_cls \<Rightarrow> frame \<Rightarrow> exn option \<times> frame" where
  "filters_block cls fr =
     (case fr_filters fr of
        None \<Rightarrow> (None, fr)
      | Some fs \<Rightarrow>
          if fs = [] then (None, fr)
          else
            (let (err, fs1, fr1) =
               (if truthy (dict_get fs ''search_like_string'') then
                  (let search_like_string = dict_get fs ''search_like_string'';
                       fs1 = AList.delete ''search_like_string'' fs;
                       fr1 = fr\<lparr>fr_filters := Some fs1\<rparr>
                   in if truthy search_like_string then
                        (case build_search_like_string_stmt cls (fr_stmt fr1) search_like_string of
                           Inl x \<Rightarrow> (Some x, fs1, fr1)
                         | Inr stmt \<Rightarrow> (None, fs1, fr1\<lparr>fr_stmt := stmt\<rparr>))
                      else (None, fs1, fr1))
                else (None, fs, fr))
             in case err of
                  Some x \<Rightarrow> (Some x, fr1)
                | None \<Rightarrow>
                    (case build_conditions cls fs1 of
                       Inl x \<Rightarrow> (Some x, fr1)
                     | Inr cs \<Rightarrow> (None, fr1\<lparr>fr_conditions := fr_conditions fr1 @ cs\<rparr>))))"

text \<open>
  \<^verbatim>\<open>filter\<close> up to \<^verbatim>\<open>query = stmt.where(and_(*conditions))\<close>. The result has
  three parts: the exception or the statement \<^verbatim>\<open>query\<close>, the caller's filters
  dictionary at that point, and the caller's conditions list at that point.
\<close>

definition filter_query ::
  "model_cls \<Rightarrow> filters option \<Rightarrow> cond list option \<Rightarrow> sorting option \<Rightarrow>
   (exn + select_stmt) \<times> filters option \<times> cond list option" where
  "filter_query cls filters conditions srt =
     (let (aliased, conds0) = conditions_or_new conditions;
          fr0 = \<lparr>fr_stmt = select_cls, fr_conditions = conds0, fr_filters = filters\<rparr>;
          (err, fr1) = filters_block cls fr0;
          caller_conditions = (if aliased then Some (fr_conditions fr1) else conditions)
      in case err of
           Some x \<Rightarrow> (Inl x, fr_filters fr1, caller_conditions)
         | None \<Rightarrow>
             (case (case srt of
                      None \<Rightarrow> Inr (fr_stmt fr1)
                    | Some s \<Rightarrow>
                        if sorting_truthy s then
                          (case build_sorting cls s of
                             Inl x \<Rightarrow> Inl x
                           | Inr cs \<Rightarrow> Inr (sa_order_by (fr_stmt fr1) cs))
                        else Inr (fr_stmt fr1)) of
                Inl x \<Rightarrow> (Inl x, fr_filters fr1, caller_conditions)
              | Inr stmt \<Rightarrow>
                  (Inr (sa_where stmt (sa_and (fr_conditions fr1))),
                   fr_filters fr1, caller_conditions)))"

text \<open>
  \<^verbatim>\<open>filter\<close>: the query is counted and windowed when a pagination is given, and
  run. The value returned is the sequence of instances, or the pair of the sequence and
  the total. The two statements are run as the backend runs a statement whose
  parameters it takes; the driver's refusal of a parameter is modelled for the lookups
  only.
\<close>

definition filter_op ::
  "model_cls \<Rightarrow> env \<Rightarrow> filters option \<Rightarrow> cond list option \<Rightarrow> pagination option \<Rightarrow>
   sorting option \<Rightarrow> (exn + filter_result) \<times> filters option \<times> cond list option" where
  "filter_op cls e filters conditions pg srt =
     (case filter_query cls filters conditions srt of
        (Inl x, caller_filters, caller_conditions) \<Rightarrow>
          (Inl x, caller_filters, caller_conditions)
      | (Inr query, caller_filters, caller_conditions) \<Rightarrow>
          (Inr (case pg of
                  Some p \<Rightarrow>
                    Page (db_execute_unique e
                            (sa_offset (sa_limit query (pg_limit p)) (pg_offset p)))
                         (db_count e query)
                | None \<Rightarrow> Rows (db_execute_unique e query)),
           caller_filters, caller_conditions))"

section \<open>Notions of the specification and example data\<close>

text \<open>The first alternative of both patterns, up to the literal that ends it.\<close>

definition key_alt :: "string \<Rightarrow> rx list" where
  "key_alt suf = [Lit ''Key ('', GroupDotStar, Lit '')=('', DotStar, Lit suf]"

text \<open>
  The message contains \<^verbatim>\<open>Key (cols)=(vals)\<close> followed by the literal, on one line.
\<close>

definition key_shape :: "string \<Rightarrow> string \<Rightarrow> string \<Rightarrow> bool" where
  "key_shape suf m cols \<longleftrightarrow>
     (\<exists>pre vals post. m = pre @ ''Key ('' @ cols @ '')=('' @ vals @ suf @ post
        \<and> newline \<notin> set cols \<and> newline \<notin> set vals)"

text \<open>
  The failure has a message, the pattern's first match on it has the group
  \<^verbatim>\<open>cols\<close>, and the group is not empty.
\<close>

definition uniqueness_match :: "integrity_error \<Rightarrow> string \<Rightarrow> bool" where
  "uniqueness_match exc cols =
     (case orig_args exc of
        [] \<Rightarrow> False
      | m # _ \<Rightarrow> re_findall_first RE_ALREADY_EXIST_COMPILED m = Some cols \<and> cols \<noteq> [])"

definition reference_match :: "integrity_error \<Rightarrow> string \<Rightarrow> bool" where
  "reference_match exc cols =
     (case orig_args exc of
        [] \<Rightarrow> False
      | m # _ \<Rightarrow> re_findall_first RE_NOT_PRESENT_COMPILED m = Some cols \<and> cols \<noteq> [])"

subsection \<open>Example data\<close>

definition Team :: model_cls where
  "Team = \<lparr>cls_name = ''Team'', with_name = True, soft_delete = True,
            extra_columns = [''status''], search_like_fields = [''name''],
            other_attrs = [(''__tablename__'', Plain (VStr ''team'')), (''__table__'', Opaque),
                           (''__mapper__'', Opaque), (''__init__'', Opaque)]\<rparr>"

definition unique_msg :: string where
  "unique_msg = ''duplicate key value violates unique constraint team_name_key'' @ [newline]
     @ ''DETAIL:  Key (name)=(Alpha) already exists.''"

definition fk_msg :: string where
  "fk_msg = ''insert or update on table team violates foreign key constraint team_org_fkey''
     @ [newline] @ ''DETAIL:  Key (org_id)=(7) is not present in table org.''"

definition failure :: "string list \<Rightarrow> integrity_error" where
  "failure args = \<lparr>orig_args = args, exc_text = ''(IntegrityError)''\<rparr>"

text \<open>
  What a PostgreSQL backend accepts for the columns of \<^verbatim>\<open>Team\<close>: a 32-bit integer
  for the id, a text for the name, the status and the creator, a boolean for the flag.
\<close>

definition pg_accepts :: "string \<Rightarrow> val \<Rightarrow> bool" where
  "pg_accepts f v =
     (case v of
        VNone \<Rightarrow> True
      | VInt i \<Rightarrow> f = ''id'' \<and> - 2147483648 \<le> i \<and> i \<le> 2147483647
      | VStr s \<Rightarrow> f \<in> {''name'', ''status'', ''creator_id''}
      | VBool b \<Rightarrow> f = ''is_active'')"

text \<open>A backend that refuses every write with the given failure.\<close>

definition failing_env :: "integrity_error \<Rightarrow> env" where
  "failing_env exc =
     \<lparr>db_table = [], db_next_id = 1, db_check = (\<lambda>r rs. Some exc),
      db_accepts = pg_accepts, log = []\<rparr>"

definition new_team :: inst where
  "new_team = \<lparr>attrs = [(''name'', VStr ''Alpha'')], identity = None\<rparr>"

definition team_row :: "int \<Rightarrow> string \<Rightarrow> string \<Rightarrow> bool \<Rightarrow> row" where
  "team_row i n st a =
     [(''id'', VInt i), (''creator_id'', VNone), (''created_at'', VNone),
      (''updated_at'', VNone), (''name'', VStr n), (''is_active'', VBool a),
      (''status'', VStr st)]"

text \<open>A table of three teams, on a backend that accepts every write.\<close>

definition env1 :: env where
  "env1 =
     \<lparr>db_table = [team_row 1 ''Alpha Team'' ''open'' True,
                  team_row 2 ''Beta Squad'' ''open'' True,
                  team_row 3 ''Gamma'' ''closed'' True],
      db_next_id = 4, db_check = (\<lambda>r rs. None), db_accepts = pg_accepts, log = []\<rparr>"

text \<open>The second team, as a query loads it.\<close>

definition beta :: inst where
  "beta = load_inst (team_row 2 ''Beta Squad'' ''open'' True)"

subsection \<open>What a filter request asks for\<close>

text \<open>The value under the reserved key, \<^verbatim>\<open>None\<close> when there is none.\<close>

definition search_token :: "filters option \<Rightarrow> val" where
  "search_token filters =
     (case filters of None \<Rightarrow> VNone | Some fs \<Rightarrow> dict_get fs ''search_like_string'')"

text \<open>The entries that are equality filters: all but a reserved key with a truthy value.\<close>

definition equality_filters :: "filters option \<Rightarrow> filters" where
  "equality_filters filters =
     (case filters of
        None \<Rightarrow> []
      | Some fs \<Rightarrow>
          if truthy (dict_get fs ''search_like_string'')
          then AList.delete ''search_like_string'' fs else fs)"

definition equality_conds :: "filters option \<Rightarrow> cond list" where
  "equality_conds filters = map (\<lambda>(k, v). Eq k v) (equality_filters filters)"

text \<open>The search criterion of the statement: one OR group when the token is truthy.\<close>

definition search_criteria :: "model_cls \<Rightarrow> filters option \<Rightarrow> cond list" where
  "search_criteria cls filters =
     (if truthy (search_token filters)
      then [sa_or (map (\<lambda>f. ILike f (sls_pattern (search_token filters)))
                    (search_like_fields cls))]
      else [])"

text \<open>Every field name the filters make the builders look up is a column.\<close>

definition filter_names_ok :: "model_cls \<Rightarrow> filters option \<Rightarrow> bool" where
  "filter_names_ok cls filters =
     (list_all (\<lambda>k. k \<in> set (columns cls))
        (if truthy (search_token filters) then search_like_fields cls else [])
      \<and> list_all (\<lambda>(k, v). k \<in> set (columns cls)) (equality_filters filters))"

definition sort_entries :: "sorting option \<Rightarrow> (string \<times> direction) list" where
  "sort_entries srt = (case srt of None \<Rightarrow> [] | Some s \<Rightarrow> sort_fields_of s)"

definition sort_names_ok :: "model_cls \<Rightarrow> sorting option \<Rightarrow> bool" where
  "sort_names_ok cls srt = list_all (\<lambda>(f, d). f \<in> set (columns cls)) (sort_entries srt)"

definition given_conditions :: "cond list option \<Rightarrow> cond list" where
  "given_conditions conditions = (case conditions of None \<Rightarrow> [] | Some cs \<Rightarrow> cs)"

text \<open>
  A row matches the request: it satisfies every condition given, every equality filter,
  and, for a truthy token and a record type with search-like fields, the pattern on one
  of these fields.
\<close>

definition request_matches ::
  "model_cls \<Rightarrow> filters option \<Rightarrow> cond list option \<Rightarrow> row \<Rightarrow> bool" where
  "request_matches cls filters conditions r =
     (list_all (\<lambda>c. where_true c r) (given_conditions conditions)
      \<and> list_all (\<lambda>(k, v). col_val r k = v) (equality_filters filters)
      \<and> (if truthy (search_token filters) \<and> search_like_fields cls \<noteq> []
         then list_ex (\<lambda>f. case col_val r f of
                              VStr s \<Rightarrow> ilike_match (sls_pattern (search_token filters)) s
                            | _ \<Rightarrow> False)
                (search_like_fields cls)
         else True))"

definition sort_clauses :: "sorting option \<Rightarrow> order_clause list" where
  "sort_clauses srt = map (\<lambda>(f, d). OrderClause f d True) (sort_entries srt)"

text \<open>The caller's conditions list after the call, when no field lookup of the filters
  fails: a non-empty list has the equality predicates appended.\<close>

definition caller_conditions_after :: "filters option \<Rightarrow> cond list option \<Rightarrow> cond list option" where
  "caller_conditions_after filters conditions =
     (case conditions of
        None \<Rightarrow> None
      | Some cs \<Rightarrow> if cs \<noteq> [] then Some (cs @ equality_conds filters) else Some [])"

text \<open>The statement of a request whose field names are all columns.\<close>

definition request_query ::
  "model_cls \<Rightarrow> filters option \<Rightarrow> cond list option \<Rightarrow> sorting option \<Rightarrow> select_stmt" where
  "request_query cls filters conditions srt =
     \<lparr>where_criteria = search_criteria cls filters
         @ [sa_and (given_conditions conditions @ equality_conds filters)],
      order_by_clauses = sort_clauses srt, limit_clause = None, offset_clause = None\<rparr>"

subsection \<open>Words of a search token\<close>

text \<open>The words of a token: its pieces between space characters.\<close>

fun split_on_space :: "string \<Rightarrow> string list" where
  "split_on_space [] = [[]]"
| "split_on_space (c # cs) =
     (if c = CHR '' '' then [] # split_on_space cs
      else (case split_on_space cs of [] \<Rightarrow> [[c]] | w # ws \<Rightarrow> (c # w) # ws))"

fun tails :: "'a list \<Rightarrow> 'a list list" where
  "tails [] = [[]]"
| "tails (x # xs) = (x # xs) # tails xs"

text \<open>
  The text contains the words in their order, one after the other, with any text
  before, between and after them.
\<close>

fun words_in_order :: "string list \<Rightarrow> string \<Rightarrow> bool" where
  "words_in_order [] s = True"
| "words_in_order (w # ws) s =
     list_ex (\<lambda>t. take (length w) t = w \<and> words_in_order ws (drop (length w) t)) (tails s)"

text \<open>The token has none of the characters that \<^verbatim>\<open>LIKE\<close> reads as more than
  themselves: percent, underscore and backslash.\<close>

definition like_meta_free :: "string \<Rightarrow> bool" where
  "like_meta_free t = list_all (\<lambda>c. c \<noteq> CHR ''%'' \<and> c \<noteq> CHR ''_'' \<and> c \<noteq> CHR 0x5C) t"

text \<open>The replacement of the pattern: a space becomes a percent sign.\<close>

definition sp2pct :: "char \<Rightarrow> char" where
  "sp2pct c = (if c = CHR '' '' then CHR ''%'' else c)"

subsection \<open>Keys of an update\<close>

text \<open>
  The key names a mapped column or nothing: no other attribute of the class, not the
  instance state, not the parameter \<^verbatim>\<open>self\<close>.
\<close>

definition plain_key :: "model_cls \<Rightarrow> string \<Rightarrow> bool" where
  "plain_key cls k =
     (map_of (attr_table cls) k = None \<and> k \<noteq> ''_sa_instance_state'' \<and> k \<noteq> ''self'')"

text \<open>The instance after all assignments of the data, in order.\<close>

fun assign_all :: "inst \<Rightarrow> (string \<times> val) list \<Rightarrow> inst" where
  "assign_all ob [] = ob"
| "assign_all ob ((k, v) # kwargs) = assign_all (setattr_inst ob k v) kwargs"

section \<open>The error classifier\<close>

lemma first_some_map_Some:
  "first_some (map f xs) = Some y \<Longrightarrow> \<exists>x\<in>set xs. f x = Some y"
proof (induction xs)
  case Nil then show ?case by simp
next
  case (Cons a xs)
  then show ?case by (cases "f a") auto
qed

lemma greedy_lengths_run: "n \<in> set (greedy_lengths s) \<Longrightarrow> n \<le> dot_run s"
  by (auto simp: greedy_lengths_def)

lemma take_dot_run_no_newline:
  assumes "n \<le> dot_run s"
  shows "newline \<notin> set (take n s)"
proof -
  have "s = takeWhile (\<lambda>c. c \<noteq> newline) s @ dropWhile (\<lambda>c. c \<noteq> newline) s"
    by simp
  then have "take n s = take n (takeWhile (\<lambda>c. c \<noteq> newline) s)"
    using assms unfolding dot_run_def
    by (metis append_eq_conv_conj take_take min.absorb1)
  then have "set (take n s) \<subseteq> set (takeWhile (\<lambda>c. c \<noteq> newline) s)"
    by (metis set_take_subset)
  then show ?thesis
    using set_takeWhileD by fastforce
qed

lemma match_lit_Some:
  assumes "match_here (Lit l # rs) s g = Some r"
  shows "\<exists>t. s = l @ t \<and> match_here rs t g = Some r"
proof -
  from assms have l: "take (length l) s = l" and m: "match_here rs (drop (length l) s) g = Some r"
    by (auto split: if_splits)
  have "s = l @ drop (length l) s"
    using l by (metis append_take_drop_id)
  with m show ?thesis by blast
qed

lemma match_key_alt:
  assumes "match_here (key_alt suf) s g0 = Some g"
  shows "\<exists>vals post. s = ''Key ('' @ g @ '')=('' @ vals @ suf @ post
           \<and> newline \<notin> set g \<and> newline \<notin> set vals"
proof -
  from assms obtain t1 where t1: "s = ''Key ('' @ t1"
    and m1: "match_here [GroupDotStar, Lit '')=('', DotStar, Lit suf] t1 g0 = Some g"
    unfolding key_alt_def using match_lit_Some by blast
  from m1 obtain n where n: "n \<in> set (greedy_lengths t1)"
    and m2: "match_here [Lit '')=('', DotStar, Lit suf] (drop n t1) (take n t1) = Some g"
    using first_some_map_Some[of "\<lambda>n. match_here [Lit '')=('', DotStar, Lit suf] (drop n t1) (take n t1)" "greedy_lengths t1" g]
    by auto
  from m2 obtain t2 where t2: "drop n t1 = '')=('' @ t2"
    and m3: "match_here [DotStar, Lit suf] t2 (take n t1) = Some g"
    using match_lit_Some by blast
  from m3 obtain k where k: "k \<in> set (greedy_lengths t2)"
    and m4: "match_here [Lit suf] (drop k t2) (take n t1) = Some g"
    using first_some_map_Some[of "\<lambda>k. match_here [Lit suf] (drop k t2) (take n t1)" "greedy_lengths t2" g]
    by auto
  from m4 obtain t3 where t3: "drop k t2 = suf @ t3" and g: "take n t1 = g"
    using match_lit_Some[of suf "[]" "drop k t2" "take n t1" g] by auto
  have "t1 = g @ '')=('' @ take k t2 @ suf @ t3"
    using g t2 t3 by (metis append_take_drop_id)
  moreover have "newline \<notin> set g"
    using g n greedy_lengths_run take_dot_run_no_newline by blast
  moreover have "newline \<notin> set (take k t2)"
    using k greedy_lengths_run take_dot_run_no_newline by blast
  ultimately show ?thesis using t1 by blast
qed

lemma match_dollar_group: "match_here [Dollar] s [] = Some g \<Longrightarrow> g = []"
  by (auto split: if_splits)

lemma match_alts_key_shape:
  assumes "match_alts [key_alt suf, [Dollar]] s = Some g" and "g \<noteq> []"
  shows "key_shape suf s g"
proof (cases "match_here (key_alt suf) s []")
  case None
  with assms(1) have "g = []"
    by (auto simp: match_alts_def split: if_splits)
  with assms(2) show ?thesis by simp
next
  case (Some a)
  with assms(1) have "a = g" by (simp add: match_alts_def)
  with Some obtain vals post where
    "s = ''Key ('' @ g @ '')=('' @ vals @ suf @ post" "newline \<notin> set g" "newline \<notin> set vals"
    using match_key_alt by blast
  then have "s = [] @ ''Key ('' @ g @ '')=('' @ vals @ suf @ post \<and> newline \<notin> set g \<and> newline \<notin> set vals"
    by simp
  then show ?thesis unfolding key_shape_def by blast
qed

lemma key_shape_Cons: "key_shape suf s g \<Longrightarrow> key_shape suf (c # s) g"
  unfolding key_shape_def
  by (metis append_Cons)

lemma findall_first_key_shape:
  "re_findall_first [key_alt suf, [Dollar]] s = Some g \<Longrightarrow> g \<noteq> [] \<Longrightarrow> key_shape suf s g"
proof (induction s)
  case Nil
  then show ?case using match_alts_key_shape by simp
next
  case (Cons c cs)
  show ?case
  proof (cases "match_alts [key_alt suf, [Dollar]] (c # cs)")
    case None
    with Cons.prems have "re_findall_first [key_alt suf, [Dollar]] cs = Some g" by simp
    then show ?thesis using Cons.IH Cons.prems(2) key_shape_Cons by blast
  next
    case (Some a)
    with Cons.prems have "a = g" by simp
    with Some show ?thesis using match_alts_key_shape Cons.prems(2) by blast
  qed
qed

lemma RE_ALREADY_key_alt: "RE_ALREADY_EXIST_COMPILED = [key_alt '') already exists'', [Dollar]]"
  by (simp add: RE_ALREADY_EXIST_COMPILED_def key_alt_def)

lemma RE_NOT_PRESENT_key_alt:
  "RE_NOT_PRESENT_COMPILED = [key_alt '') is not present in table'', [Dollar]]"
  by (simp add: RE_NOT_PRESENT_COMPILED_def key_alt_def)

lemma truthy_match_uniqueness:
  "truthy_match RE_ALREADY_EXIST_COMPILED (orig_args exc) = Some g \<longleftrightarrow> uniqueness_match exc g"
  by (auto simp: truthy_match_def uniqueness_match_def split: list.splits option.splits)

lemma truthy_match_reference:
  "truthy_match RE_NOT_PRESENT_COMPILED (orig_args exc) = Some g \<longleftrightarrow> reference_match exc g"
  by (auto simp: truthy_match_def reference_match_def split: list.splits option.splits)

lemma uniqueness_match_shape:
  assumes "uniqueness_match exc cols"
  shows "\<exists>m rest. orig_args exc = m # rest \<and> key_shape '') already exists'' m cols"
  using assms findall_first_key_shape[of "'') already exists''" _ cols]
  by (auto simp: uniqueness_match_def RE_ALREADY_key_alt split: list.splits)

lemma reference_match_shape:
  assumes "reference_match exc cols"
  shows "\<exists>m rest. orig_args exc = m # rest \<and> key_shape '') is not present in table'' m cols"
  using assms findall_first_key_shape[of "'') is not present in table''" _ cols]
  by (auto simp: reference_match_def RE_NOT_PRESENT_key_alt split: list.splits)

text \<open>
  Claim C1. When the flush of \<^verbatim>\<open>save\<close> fails with a constraint violation, the
  failure is classified in this order. If it has a message and the first match of the
  "already exists" pattern has a non-empty group, \<^verbatim>\<open>save\<close> raises the validation
  error for a unique constraint, carrying that group (the column list of a
  \<^verbatim>\<open>Key (cols)=(vals) already exists\<close> in the message) and the record type's name.
  Otherwise, if the first match of the "is not present in table" pattern has a non-empty
  group, it raises the validation error for a foreign key with that group and the name.
  Otherwise (no message, or empty groups) it raises the integrity error with the name
  only and logs the failure's full text at error level.
\<close>

theorem save_classifies_constraint_violation:
  assumes "db_flush cls ob e = Inl exc"
  shows
    "(uniqueness_match exc cols \<longrightarrow>
        save cls ob e =
          (Inl (DatabaseValidationError (''Unique constraint violated for '' @ cls_name cls) cols), e)
        \<and> (\<exists>m rest. orig_args exc = m # rest \<and> key_shape '') already exists'' m cols))
     \<and> ((\<forall>c. \<not> uniqueness_match exc c) \<and> reference_match exc cols \<longrightarrow>
        save cls ob e =
          (Inl (DatabaseValidationError
                  (''Foreign key constraint violated for '' @ cls_name cls) cols), e)
        \<and> (\<exists>m rest. orig_args exc = m # rest
              \<and> key_shape '') is not present in table'' m cols))
     \<and> ((\<forall>c. \<not> uniqueness_match exc c) \<and> (\<forall>c. \<not> reference_match exc c) \<longrightarrow>
        save cls ob e =
          (Inl (DatabaseIntegrityError (''Integrity error for '' @ cls_name cls)),
           e\<lparr>log := log e @
               [(ERROR, ''Integrity error for '' @ cls_name cls @ '': '' @ exc_text exc)]\<rparr>))"
proof (intro conjI impI)
  assume u: "uniqueness_match exc cols"
  then have "truthy_match RE_ALREADY_EXIST_COMPILED (orig_args exc) = Some cols"
    by (simp add: truthy_match_uniqueness)
  then show "save cls ob e =
      (Inl (DatabaseValidationError (''Unique constraint violated for '' @ cls_name cls) cols), e)"
    using assms by (simp add: save_def raise_validation_exception_def)
  show "\<exists>m rest. orig_args exc = m # rest \<and> key_shape '') already exists'' m cols"
    using u by (rule uniqueness_match_shape)
next
  assume a: "(\<forall>c. \<not> uniqueness_match exc c) \<and> reference_match exc cols"
  then have "truthy_match RE_ALREADY_EXIST_COMPILED (orig_args exc) = None"
    using truthy_match_uniqueness by (metis option.exhaust)
  moreover from a have "truthy_match RE_NOT_PRESENT_COMPILED (orig_args exc) = Some cols"
    by (simp add: truthy_match_reference)
  ultimately show "save cls ob e =
      (Inl (DatabaseValidationError
              (''Foreign key constraint violated for '' @ cls_name cls) cols), e)"
    using assms by (simp add: save_def raise_validation_exception_def)
  show "\<exists>m rest. orig_args exc = m # rest \<and> key_shape '') is not present in table'' m cols"
    using a reference_match_shape by blast
next
  assume a: "(\<forall>c. \<not> uniqueness_match exc c) \<and> (\<forall>c. \<not> reference_match exc c)"
  then have "truthy_match RE_ALREADY_EXIST_COMPILED (orig_args exc) = None"
    using truthy_match_uniqueness by (metis option.exhaust)
  moreover from a have "truthy_match RE_NOT_PRESENT_COMPILED (orig_args exc) = None"
    using truthy_match_reference by (metis option.exhaust)
  ultimately show "save cls ob e =
      (Inl (DatabaseIntegrityError (''Integrity error for '' @ cls_name cls)),
       e\<lparr>log := log e @
           [(ERROR, ''Integrity error for '' @ cls_name cls @ '': '' @ exc_text exc)]\<rparr>)"
    using assms by (simp add: save_def raise_validation_exception_def logger_def)
qed

theorem save_classifies_constraint_violation_witness:
  "db_flush Team new_team (failing_env (failure [unique_msg])) = Inl (failure [unique_msg])
   \<and> uniqueness_match (failure [unique_msg]) ''name''
   \<and> save Team new_team (failing_env (failure [unique_msg])) =
       (Inl (DatabaseValidationError ''Unique constraint violated for Team'' ''name''),
        failing_env (failure [unique_msg]))
   \<and> reference_match (failure [fk_msg]) ''org_id''
   \<and> save Team new_team (failing_env (failure [fk_msg])) =
       (Inl (DatabaseValidationError ''Foreign key constraint violated for Team'' ''org_id''),
        failing_env (failure [fk_msg]))
   \<and> save Team new_team (failing_env (failure [])) =
       (Inl (DatabaseIntegrityError ''Integrity error for Team''),
        (failing_env (failure []))
          \<lparr>log := [(ERROR, ''Integrity error for Team: (IntegrityError)'')]\<rparr>)"
proof -
  have fl: "\<And>exc. db_flush Team new_team (failing_env exc) = Inl exc"
    by (simp add: db_flush_def failing_env_def new_team_def)
  have a1: "re_findall_first RE_ALREADY_EXIST_COMPILED unique_msg = Some ''name''"
    by code_simp
  have a2: "re_findall_first RE_ALREADY_EXIST_COMPILED fk_msg = Some []"
    by code_simp
  have a3: "re_findall_first RE_NOT_PRESENT_COMPILED fk_msg = Some ''org_id''"
    by code_simp
  have u1: "uniqueness_match (failure [unique_msg]) ''name''"
    by (simp add: uniqueness_match_def failure_def a1)
  have u2: "\<forall>c. \<not> uniqueness_match (failure [fk_msg]) c"
    by (simp add: uniqueness_match_def failure_def a2)
  have r2: "reference_match (failure [fk_msg]) ''org_id''"
    by (simp add: reference_match_def failure_def a3)
  have u3: "\<forall>c. \<not> uniqueness_match (failure []) c"
    by (simp add: uniqueness_match_def failure_def)
  have r3: "\<forall>c. \<not> reference_match (failure []) c"
    by (simp add: reference_match_def failure_def)
  have n: "cls_name Team = ''Team''" by (simp add: Team_def)
  have t: "exc_text (failure []) = ''(IntegrityError)''" by (simp add: failure_def)
  have l: "log (failing_env (failure [])) = []" by (simp add: failing_env_def)
  show ?thesis
    using save_classifies_constraint_violation [OF fl, of "failure [unique_msg]" "''name''"]
      save_classifies_constraint_violation [OF fl, of "failure [fk_msg]" "''org_id''"]
      save_classifies_constraint_violation [OF fl, of "failure []" "[]"]
      fl u1 u2 r2 u3 r3
    by (simp add: n t l)
qed


section \<open>Running statements\<close>

lemma length_insert_row: "length (insert_row cs r xs) = Suc (length xs)"
  by (induction xs) auto

lemma length_fold_insert_row:
  "length (fold (insert_row cs) rs acc) = length rs + length acc"
  by (induction rs arbitrary: acc) (auto simp: length_insert_row)

lemma length_order_rows: "length (order_rows cs rs) = length rs"
  by (simp add: order_rows_def length_fold_insert_row)

lemma set_insert_row: "set (insert_row cs r xs) = insert r (set xs)"
  by (induction xs) auto

lemma set_fold_insert_row: "set (fold (insert_row cs) rs acc) = set rs \<union> set acc"
  by (induction rs arbitrary: acc) (auto simp: set_insert_row)

lemma set_order_rows: "set (order_rows cs rs) = set rs"
  by (simp add: order_rows_def set_fold_insert_row)

lemma order_rows_Nil: "order_rows cs [] = []"
  by (simp add: order_rows_def)

lemma all_values_and:
  "list_all id (concat (map (\<lambda>c. case cond_eval c r of None \<Rightarrow> [] | Some v \<Rightarrow> [v]) cs))
     = list_all (\<lambda>c. where_true c r) cs"
  by (induction cs) (auto simp: where_true_def split: option.splits)

lemma if_empty_all: "(if vs = [] then True else list_all id vs) = list_all id vs"
  by (cases vs) simp_all

lemma where_true_sa_and: "where_true (sa_and cs) r = list_all (\<lambda>c. where_true c r) cs"
proof -
  let ?vs = "concat (map (\<lambda>c. case cond_eval c r of None \<Rightarrow> [] | Some v \<Rightarrow> [v]) cs)"
  have "where_true (sa_and cs) r = (if ?vs = [] then True else list_all id ?vs)"
    by (simp add: where_true_def sa_and_def Let_def)
  also have "\<dots> = list_all id ?vs"
    by (rule if_empty_all)
  finally show ?thesis
    by (simp add: all_values_and)
qed

lemma ilike_values:
  "concat (map (\<lambda>c. case cond_eval c r of None \<Rightarrow> [] | Some v \<Rightarrow> [v])
             (map (\<lambda>f. ILike f p) fs))
     = map (\<lambda>f. case col_val r f of VStr s \<Rightarrow> ilike_match p s | _ \<Rightarrow> False) fs"
  by (induction fs) auto

lemma where_true_sa_or_ilike:
  "where_true (sa_or (map (\<lambda>f. ILike f p) fs)) r
     = (fs = [] \<or> list_ex (\<lambda>f. case col_val r f of VStr s \<Rightarrow> ilike_match p s | _ \<Rightarrow> False) fs)"
proof (cases "fs = []")
  case True
  then show ?thesis by (simp add: where_true_def sa_or_def)
next
  case False
  then show ?thesis
    by (simp add: where_true_def sa_or_def Let_def ilike_values list_ex_iff del: cond_eval.simps(3))
qed

lemma where_true_Eq: "where_true (Eq f v) r = (col_val r f = v)"
  by (simp add: where_true_def)

lemma result_rows_unwindowed:
  "limit_clause stmt = None \<Longrightarrow> offset_clause stmt = None \<Longrightarrow>
   result_rows tbl stmt = order_rows (order_by_clauses stmt) (filter (stmt_holds stmt) tbl)"
  by (simp add: result_rows_def apply_window_def)

lemma get_one_by_filter_accepted:
  assumes "list_all (param_ok e) (concat (map cond_params conditions))"
    and "\<not> list_ex (\<lambda>r. list_all (\<lambda>c. where_true c r) conditions) (db_table e)"
  shows "get_one_by_filter cls e conditions = Inr None"
proof -
  let ?q = "sa_where select_cls (sa_and conditions)"
  have h: "stmt_holds ?q = (\<lambda>r. list_all (\<lambda>c. where_true c r) conditions)"
    by (rule ext) (simp add: stmt_holds_def sa_where_def select_cls_def where_true_sa_and)
  have "filter (stmt_holds ?q) (db_table e) = []"
    using assms(2) unfolding h by (simp add: list_ex_iff filter_empty_conv)
  then have "result_rows (db_table e) ?q = []"
    by (simp add: result_rows_def apply_window_def sa_where_def select_cls_def order_rows_Nil)
  then have "db_execute_unique e ?q = []"
    by (simp add: db_execute_unique_def)
  moreover have "where_criteria ?q = [sa_and conditions]"
    by (simp add: sa_where_def select_cls_def)
  ultimately have "db_execute e ?q = Inr []"
    using assms(1) by (simp add: db_execute_def sa_and_def)
  then show ?thesis
    by (simp add: get_one_by_filter_def)
qed

lemma get_one_by_filter_refused:
  assumes "\<not> list_all (param_ok e) (concat (map cond_params conditions))"
  shows "get_one_by_filter cls e conditions = Inl DBAPIError"
proof -
  let ?q = "sa_where select_cls (sa_and conditions)"
  have "where_criteria ?q = [sa_and conditions]"
    by (simp add: sa_where_def select_cls_def)
  then have "db_execute e ?q = Inl DBAPIError"
    using assms by (simp add: db_execute_def sa_and_def)
  then show ?thesis
    by (simp add: get_one_by_filter_def)
qed

text \<open>
  Claim C9, as stated, fails for an id that the id column's type cannot hold: no row
  matches, and yet the lookup raises, because the driver refuses the parameter. On the
  table of three teams, \<^verbatim>\<open>get_by_id\<close> of 2147483648 (one beyond 32 bits) ends with
  \<^verbatim>\<open>DBAPIError\<close>.
\<close>

theorem lookup_refused_id_counterexample:
  "\<not> list_ex (\<lambda>r. col_val r ''id'' = VInt 2147483648) (db_table env1)
   \<and> get_by_id Team env1 (VInt 2147483648) = Inl DBAPIError"
  by code_simp

text \<open>
  Claim C9, amended. For every id that is \<^verbatim>\<open>None\<close> or that the backend accepts as a
  value of the id column, and for every name that it accepts as a value of the name
  column: when the table has no row with the id, \<^verbatim>\<open>get_by_id\<close> returns \<^verbatim>\<open>None\<close>
  and raises nothing; when it has no row with the name, \<^verbatim>\<open>get_by_name\<close> returns
  \<^verbatim>\<open>None\<close> and raises nothing. For an id or a name that the backend does not
  accept and no row holds, the lookup raises \<^verbatim>\<open>DBAPIError\<close>.
\<close>

theorem lookup_not_found_is_none:
  "((item_id = VNone \<or> db_accepts e ''id'' item_id)
      \<and> \<not> list_ex (\<lambda>r. col_val r ''id'' = item_id) (db_table e) \<longrightarrow>
      get_by_id cls e item_id = Inr None)
   \<and> (db_accepts e ''name'' (VStr name)
      \<and> \<not> list_ex (\<lambda>r. col_val r ''name'' = VStr name) (db_table e) \<longrightarrow>
      get_by_name cls e name = Inr None)
   \<and> (item_id \<noteq> VNone \<and> \<not> db_accepts e ''id'' item_id
      \<and> \<not> list_ex (\<lambda>r. col_val r ''id'' = item_id) (db_table e) \<longrightarrow>
      get_by_id cls e item_id = Inl DBAPIError)
   \<and> (\<not> db_accepts e ''name'' (VStr name)
      \<and> \<not> list_ex (\<lambda>r. col_val r ''name'' = VStr name) (db_table e) \<longrightarrow>
      get_by_name cls e name = Inl DBAPIError)"
proof (intro conjI impI)
  assume a: "(item_id = VNone \<or> db_accepts e ''id'' item_id)
      \<and> \<not> list_ex (\<lambda>r. col_val r ''id'' = item_id) (db_table e)"
  then have p: "list_all (param_ok e) (concat (map cond_params [Eq ''id'' item_id]))"
    by (auto simp: param_ok_def)
  have q: "\<not> list_ex (\<lambda>r. list_all (\<lambda>c. where_true c r) [Eq ''id'' item_id]) (db_table e)"
    using a by (simp add: where_true_Eq)
  show "get_by_id cls e item_id = Inr None"
    unfolding get_by_id_def by (rule get_one_by_filter_accepted[OF p q])
next
  assume a: "db_accepts e ''name'' (VStr name)
      \<and> \<not> list_ex (\<lambda>r. col_val r ''name'' = VStr name) (db_table e)"
  then have p: "list_all (param_ok e) (concat (map cond_params [Eq ''name'' (VStr name)]))"
    by (simp add: param_ok_def)
  have q: "\<not> list_ex (\<lambda>r. list_all (\<lambda>c. where_true c r) [Eq ''name'' (VStr name)])
              (db_table e)"
    using a by (simp add: where_true_Eq)
  show "get_by_name cls e name = Inr None"
    unfolding get_by_name_def by (rule get_one_by_filter_accepted[OF p q])
next
  assume a: "item_id \<noteq> VNone \<and> \<not> db_accepts e ''id'' item_id
      \<and> \<not> list_ex (\<lambda>r. col_val r ''id'' = item_id) (db_table e)"
  then have "\<not> list_all (param_ok e) (concat (map cond_params [Eq ''id'' item_id]))"
    by (simp add: param_ok_def)
  then show "get_by_id cls e item_id = Inl DBAPIError"
    unfolding get_by_id_def by (rule get_one_by_filter_refused)
next
  assume a: "\<not> db_accepts e ''name'' (VStr name)
      \<and> \<not> list_ex (\<lambda>r. col_val r ''name'' = VStr name) (db_table e)"
  then have "\<not> list_all (param_ok e) (concat (map cond_params [Eq ''name'' (VStr name)]))"
    by (simp add: param_ok_def)
  then show "get_by_name cls e name = Inl DBAPIError"
    unfolding get_by_name_def by (rule get_one_by_filter_refused)
qed

theorem lookup_not_found_is_none_witness:
  "db_accepts env1 ''id'' (VInt 7)
   \<and> \<not> list_ex (\<lambda>r. col_val r ''id'' = VInt 7) (db_table env1)
   \<and> get_by_id Team env1 (VInt 7) = Inr None
   \<and> db_accepts env1 ''name'' (VStr ''Delta'')
   \<and> \<not> list_ex (\<lambda>r. col_val r ''name'' = VStr ''Delta'') (db_table env1)
   \<and> get_by_name Team env1 ''Delta'' = Inr None
   \<and> \<not> db_accepts env1 ''id'' (VStr ''2'')
   \<and> \<not> list_ex (\<lambda>r. col_val r ''id'' = VStr ''2'') (db_table env1)
   \<and> get_by_id Team env1 (VStr ''2'') = Inl DBAPIError
   \<and> \<not> db_accepts (env1\<lparr>db_accepts := (\<lambda>f v. False)\<rparr>) ''name'' (VStr ''Delta'')
   \<and> get_by_name Team (env1\<lparr>db_accepts := (\<lambda>f v. False)\<rparr>) ''Delta'' = Inl DBAPIError"
proof -
  let ?none = "env1\<lparr>db_accepts := (\<lambda>f v. False)\<rparr>"
  have a1: "db_accepts env1 ''id'' (VInt 7)"
    by (simp add: env1_def pg_accepts_def)
  have a2: "\<not> list_ex (\<lambda>r. col_val r ''id'' = VInt 7) (db_table env1)"
    by (simp add: env1_def team_row_def col_val_def)
  have b1: "db_accepts env1 ''name'' (VStr ''Delta'')"
    by (simp add: env1_def pg_accepts_def)
  have b2: "\<not> list_ex (\<lambda>r. col_val r ''name'' = VStr ''Delta'') (db_table env1)"
    by (simp add: env1_def team_row_def col_val_def)
  have c1: "\<not> db_accepts env1 ''id'' (VStr ''2'')"
    by (simp add: env1_def pg_accepts_def)
  have c2: "\<not> list_ex (\<lambda>r. col_val r ''id'' = VStr ''2'') (db_table env1)"
    by (simp add: env1_def team_row_def col_val_def)
  have d1: "\<not> db_accepts ?none ''name'' (VStr ''Delta'')"
    by simp
  have d2: "\<not> list_ex (\<lambda>r. col_val r ''name'' = VStr ''Delta'') (db_table ?none)"
    using b2 by simp
  note w1 = lookup_not_found_is_none
      [where item_id = "VInt 7" and e = env1 and name = "''Delta''" and cls = Team]
  note w2 = lookup_not_found_is_none
      [where item_id = "VStr ''2''" and e = env1 and name = "''Delta''" and cls = Team]
  note w3 = lookup_not_found_is_none
      [where item_id = "VInt 7" and e = ?none and name = "''Delta''" and cls = Team]
  from w1 a1 a2 have r1: "get_by_id Team env1 (VInt 7) = Inr None" by blast
  from w1 b1 b2 have r2: "get_by_name Team env1 ''Delta'' = Inr None" by blast
  from w2 c1 c2 have r3: "get_by_id Team env1 (VStr ''2'') = Inl DBAPIError" by blast
  from w3 d1 d2 have r4: "get_by_name Team ?none ''Delta'' = Inl DBAPIError" by blast
  show ?thesis
    using a1 a2 r1 b1 b2 r2 c1 c2 r3 d1 r4 by (intro conjI)
qed

section \<open>The builders\<close>

lemma build_sorting_loop_ok:
  "list_all (\<lambda>(f, d). f \<in> set (columns cls)) fs \<Longrightarrow>
   build_sorting_loop cls fs = Inr (map (\<lambda>(f, d). OrderClause f d True) fs)"
  by (induction fs) (auto simp: getattr_cls_def)

lemma build_sorting_loop_unknown:
  "list_all (\<lambda>(f, d). f \<in> set (columns cls)) pre \<Longrightarrow> f \<notin> set (columns cls) \<Longrightarrow>
   map_of (attr_table cls) f = None \<Longrightarrow>
   build_sorting_loop cls (pre @ (f, d) # post) = Inl (AttributeError f)"
  by (induction pre) (auto simp: getattr_cls_def)

lemma build_sorting_loop_not_column:
  "list_all (\<lambda>(f, d). f \<in> set (columns cls)) pre \<Longrightarrow> f \<notin> set (columns cls) \<Longrightarrow>
   map_of (attr_table cls) f = Some a \<Longrightarrow>
   build_sorting_loop cls (pre @ (f, d) # post) = Inl (AttributeError (direction_name d))"
  by (induction pre) (auto simp: getattr_cls_def)

text \<open>
  Claim C7. From an ordered mapping of field names to directions, \<^verbatim>\<open>_build_sorting\<close>
  produces exactly one clause per entry, in the mapping's order, each with the entry's
  field and direction and with NULLS LAST; under such a clause a row whose field is NULL
  sorts after a row whose field is not, in both directions. At the first entry whose
  field name is no column the builder fails with \<^verbatim>\<open>AttributeError\<close>: for a name
  that the record type does not have, in the lookup of the name on the class; for the
  name of another attribute of the class (a method, the metadata), in the lookup of the
  direction on that attribute.
\<close>

theorem build_sorting_one_clause_per_entry:
  "(list_all (\<lambda>(f, d). f \<in> set (columns cls)) (sort_fields_of srt) \<longrightarrow>
      build_sorting cls srt
        = Inr (map (\<lambda>(f, d). OrderClause f d True) (sort_fields_of srt)))
   \<and> (sort_fields_of srt = pre @ (f, d) # post
        \<and> list_all (\<lambda>(f, d). f \<in> set (columns cls)) pre \<and> f \<notin> set (columns cls)
        \<and> map_of (attr_table cls) f = None \<longrightarrow>
      build_sorting cls srt = Inl (AttributeError f))
   \<and> (sort_fields_of srt = pre @ (f, d) # post
        \<and> list_all (\<lambda>(f, d). f \<in> set (columns cls)) pre \<and> f \<notin> set (columns cls)
        \<and> map_of (attr_table cls) f = Some a \<longrightarrow>
      build_sorting cls srt = Inl (AttributeError (direction_name d)))
   \<and> (col_val r1 g = VNone \<and> col_val r2 g \<noteq> VNone \<longrightarrow>
      cmp_clause (OrderClause g dir True) r1 r2 = GT
      \<and> cmp_clause (OrderClause g dir True) r2 r1 = LT)"
  by (simp add: build_sorting_def build_sorting_loop_ok build_sorting_loop_unknown
        build_sorting_loop_not_column)

theorem build_sorting_one_clause_per_entry_witness:
  "list_all (\<lambda>(f, d). f \<in> set (columns Team)) [(''name'', Desc), (''id'', Asc)]
   \<and> build_sorting Team (SortDict [(''name'', Desc), (''id'', Asc)])
       = Inr [OrderClause ''name'' Desc True, OrderClause ''id'' Asc True]
   \<and> ''rank'' \<notin> set (columns Team)
   \<and> map_of (attr_table Team) ''rank'' = None
   \<and> build_sorting Team (BaseSorting [(''name'', Desc), (''rank'', Asc), (''id'', Asc)])
       = Inl (AttributeError ''rank'')
   \<and> ''save'' \<notin> set (columns Team)
   \<and> map_of (attr_table Team) ''save'' = Some Opaque
   \<and> build_sorting Team (BaseSorting [(''name'', Desc), (''save'', Asc), (''id'', Asc)])
       = Inl (AttributeError ''asc'')
   \<and> cmp_clause (OrderClause ''name'' Desc True) [(''name'', VNone)] [(''name'', VStr ''a'')] = GT
   \<and> cmp_clause (OrderClause ''name'' Desc True) [(''name'', VStr ''a'')] [(''name'', VNone)] = LT"
proof -
  have c: "columns Team
      = [''id'', ''creator_id'', ''created_at'', ''updated_at'', ''name'', ''is_active'', ''status'']"
    by (simp add: columns_def Team_def)
  have k1: "list_all (\<lambda>(f, d). f \<in> set (columns Team)) [(''name'', Desc), (''id'', Asc)]"
    by (simp add: c)
  have k2: "''rank'' \<notin> set (columns Team)" by (simp add: c)
  have k3: "map_of (attr_table Team) ''rank'' = None" by code_simp
  have k4: "''save'' \<notin> set (columns Team)" by (simp add: c)
  have k5: "map_of (attr_table Team) ''save'' = Some Opaque" by code_simp
  have k6: "list_all (\<lambda>(f, d). f \<in> set (columns Team)) [(''name'', Desc)]"
    by (simp add: c)
  have n1: "col_val [(''name'', VNone)] ''name'' = VNone
      \<and> col_val [(''name'', VStr ''a'')] ''name'' \<noteq> VNone"
    by (simp add: col_val_def)
  note w1 = build_sorting_one_clause_per_entry
      [where cls = Team and srt = "SortDict [(''name'', Desc), (''id'', Asc)]"
         and pre = "[]" and f = "''x''" and d = Asc and post = "[]" and a = Opaque
         and ?r1.0 = "[(''name'', VNone)]" and g = "''name''"
         and ?r2.0 = "[(''name'', VStr ''a'')]" and dir = Desc]
  note w2 = build_sorting_one_clause_per_entry
      [where cls = Team
         and srt = "BaseSorting [(''name'', Desc), (''rank'', Asc), (''id'', Asc)]"
         and pre = "[(''name'', Desc)]" and f = "''rank''" and d = Asc
         and post = "[(''id'', Asc)]" and a = Opaque
         and ?r1.0 = "[]" and g = "''name''" and ?r2.0 = "[]" and dir = Asc]
  note w3 = build_sorting_one_clause_per_entry
      [where cls = Team
         and srt = "BaseSorting [(''name'', Desc), (''save'', Asc), (''id'', Asc)]"
         and pre = "[(''name'', Desc)]" and f = "''save''" and d = Asc
         and post = "[(''id'', Asc)]" and a = Opaque
         and ?r1.0 = "[]" and g = "''name''" and ?r2.0 = "[]" and dir = Asc]
  from w1 k1 have r1: "build_sorting Team (SortDict [(''name'', Desc), (''id'', Asc)])
       = Inr [OrderClause ''name'' Desc True, OrderClause ''id'' Asc True]"
    by simp
  from w1 n1 have r4: "cmp_clause (OrderClause ''name'' Desc True) [(''name'', VNone)]
        [(''name'', VStr ''a'')] = GT
      \<and> cmp_clause (OrderClause ''name'' Desc True) [(''name'', VStr ''a'')]
        [(''name'', VNone)] = LT"
    by blast
  from w2 k6 k2 k3 have r2:
    "build_sorting Team (BaseSorting [(''name'', Desc), (''rank'', Asc), (''id'', Asc)])
       = Inl (AttributeError ''rank'')"
    by simp
  from w3 k6 k4 k5 have r3:
    "build_sorting Team (BaseSorting [(''name'', Desc), (''save'', Asc), (''id'', Asc)])
       = Inl (AttributeError ''asc'')"
    by simp
  show ?thesis
    using k1 r1 k2 k3 r2 k4 k5 r3 r4 by (intro conjI) simp_all
qed

section \<open>Updating a record\<close>

lemma col_val_update: "col_val (AList.update k v al) k' = (if k' = k then v else col_val al k')"
  by (simp add: col_val_def update_conv)

lemma getattr_setattr:
  "getattr_inst (setattr_inst ob k v) k' = (if k' = k then v else getattr_inst ob k')"
  by (simp add: getattr_inst_def setattr_inst_def col_val_update)

lemma getattr_identity_update: "getattr_inst (ob\<lparr>identity := x\<rparr>) k = getattr_inst ob k"
  by (simp add: getattr_inst_def)

lemma identity_setattr: "identity (setattr_inst ob k v) = identity ob"
  by (simp add: setattr_inst_def)

lemma identity_assign_all: "identity (assign_all ob data) = identity ob"
  by (induction data arbitrary: ob) (auto simp: identity_setattr)

lemma getattr_assign_all_notin:
  "k \<notin> set (map fst data) \<Longrightarrow> getattr_inst (assign_all ob data) k = getattr_inst ob k"
  by (induction data arbitrary: ob) (auto simp: getattr_setattr)

lemma getattr_assign_all_in:
  "distinct (map fst data) \<Longrightarrow> (k, v) \<in> set data \<Longrightarrow>
   getattr_inst (assign_all ob data) k = v"
proof (induction data arbitrary: ob)
  case Nil
  then show ?case by simp
next
  case (Cons a data)
  obtain k' v' where a: "a = (k', v')" by (cases a)
  show ?case
  proof (cases "(k, v) = (k', v')")
    case True
    then have "k \<notin> set (map fst data)" using Cons.prems(1) a by auto
    then show ?thesis using True a by (simp add: getattr_assign_all_notin getattr_setattr)
  next
    case False
    then have "(k, v) \<in> set data" using Cons.prems(2) a by auto
    then show ?thesis using Cons.IH Cons.prems(1) a by simp
  qed
qed

lemma getattr_assign_all_cong:
  "getattr_inst a c = getattr_inst b c \<Longrightarrow>
   getattr_inst (assign_all a data) c = getattr_inst (assign_all b data) c"
  by (induction data arbitrary: a b) (auto simp: getattr_setattr)

lemma getattr_assign_all_filter:
  "c \<in> S \<Longrightarrow>
   getattr_inst (assign_all ob (filter (\<lambda>(k, v). k \<in> S) data)) c
     = getattr_inst (assign_all ob data) c"
proof (induction data arbitrary: ob)
  case Nil
  then show ?case by simp
next
  case (Cons a data)
  obtain k v where a: "a = (k, v)" by (cases a)
  show ?case
  proof (cases "k \<in> S")
    case True
    then show ?thesis using Cons a by simp
  next
    case False
    then have "getattr_inst (setattr_inst ob k v) c = getattr_inst ob c"
      using Cons.prems by (auto simp: getattr_setattr)
    then have "getattr_inst (assign_all (setattr_inst ob k v) data) c
        = getattr_inst (assign_all ob data) c"
      by (rule getattr_assign_all_cong)
    then show ?thesis using False a Cons by simp
  qed
qed

lemma id_in_columns: "''id'' \<in> set (columns cls)"
  by (simp add: columns_def)

lemma row_of_cong:
  "(\<And>c. c \<in> set (columns cls) \<Longrightarrow> getattr_inst a c = getattr_inst b c) \<Longrightarrow>
   row_of cls a = row_of cls b"
  by (simp add: row_of_def)

lemma save_env_cong:
  assumes i: "identity a = identity b"
    and g: "\<And>c. c \<in> set (columns cls) \<Longrightarrow> getattr_inst a c = getattr_inst b c"
  shows "snd (save cls a e) = snd (save cls b e)"
proof -
  have id: "getattr_inst a ''id'' = getattr_inst b ''id''"
    using g id_in_columns by blast
  have r: "row_of cls a = row_of cls b"
    using g by (rule row_of_cong)
  have r': "\<And>v. row_of cls (setattr_inst a ''id'' v) = row_of cls (setattr_inst b ''id'' v)"
    by (rule row_of_cong) (simp add: getattr_setattr g)
  show ?thesis
    by (simp add: save_def db_flush_def Let_def i id r r' getattr_setattr getattr_identity_update
          split: option.splits prod.splits)
qed

lemma save_no_attribute_error: "fst (save cls ob e) \<noteq> Inl (AttributeError k)"
  by (simp add: save_def raise_validation_exception_def Let_def
        split: sum.splits option.splits prod.splits)

lemma save_raises_typed_errors:
  "fst (save cls ob e) = Inl x \<Longrightarrow>
   (\<exists>m c. x = DatabaseValidationError m c) \<or> (\<exists>m. x = DatabaseIntegrityError m)"
  by (auto simp: save_def raise_validation_exception_def Let_def
        split: sum.splits option.splits prod.splits)

lemma attr_table_save: "map_of (attr_table cls) ''save'' = Some Opaque"
  by (simp add: attr_table_def base_attrs_def)

lemma attr_table_raise:
  "map_of (attr_table cls) ''_raise_validation_exception'' = Some Opaque"
  by (simp add: attr_table_def base_attrs_def)

lemma update_attrs_plain:
  "list_all (plain_key cls) (map fst data) \<Longrightarrow>
   update_attrs cls False ob data = Inr (False, assign_all ob data)"
  by (induction data arbitrary: ob) (auto simp: plain_key_def)

lemma update_plain:
  assumes "list_all (plain_key cls) (map fst data)"
  shows "update cls ob e data = save cls (assign_all ob data) e"
proof -
  have k: "k \<in> set (map fst data) \<Longrightarrow> plain_key cls k" for k
    using assms by (auto simp: list_all_iff)
  have "''self'' \<notin> set (map fst data)"
    using k by (auto simp: plain_key_def)
  moreover have "''save'' \<notin> set (map fst data)"
    using k attr_table_save by (fastforce simp: plain_key_def)
  moreover have "''_raise_validation_exception'' \<notin> set (map fst data)"
    using k attr_table_raise by (fastforce simp: plain_key_def)
  ultimately show ?thesis
    by (simp add: update_def update_attrs_plain[OF assms])
qed

text \<open>A key \<^verbatim>\<open>save\<close> shadows the method, and \<^verbatim>\<open>save\<close> is never run; a key
  \<^verbatim>\<open>_sa_instance_state\<close> breaks the instance for the session.\<close>

lemma update_key_save_raises:
  "''save'' \<notin> set (columns cls) \<Longrightarrow> update cls ob e [(''save'', v)] = (Inl TypeError, e)"
  by (simp add: update_def attr_table_save)

lemma update_key_state_raises:
  "''_sa_instance_state'' \<notin> set (columns cls) \<Longrightarrow>
   update cls ob e [(''_sa_instance_state'', v)] = (Inl StateAttributeError, e)"
  by (simp add: update_def)

text \<open>
  Claim C4, as stated, fails: \<^verbatim>\<open>setattr\<close> accepts a name that is no declared
  attribute. Updating the second team with the key \<^verbatim>\<open>nickname\<close>, which is neither a
  column nor any other attribute of \<^verbatim>\<open>Team\<close>, returns the instance with that attribute
  set; nothing is raised.
\<close>

theorem update_unknown_attribute_counterexample:
  "''nickname'' \<notin> set (columns Team)
   \<and> map_of (attr_table Team) ''nickname'' = None
   \<and> fst (update Team beta env1 [(''nickname'', VStr ''b'')])
       = Inr \<lparr>attrs = team_row 2 ''Beta Squad'' ''open'' True @ [(''nickname'', VStr ''b'')],
              identity = Some (VInt 2)\<rparr>"
  by code_simp

text \<open>
  Claim C4, amended. For a data mapping each of whose keys names a mapped column or no
  attribute of the record at all (so none is the name of a method or of another
  attribute of the class, of the instance state, or \<^verbatim>\<open>self\<close>), \<^verbatim>\<open>update\<close> assigns
  every key of the mapping as an attribute of the in-memory record and then calls
  \<^verbatim>\<open>save\<close> on it. A key that names no attribute is not rejected: \<^verbatim>\<open>update\<close>
  raises no \<^verbatim>\<open>AttributeError\<close> and no \<^verbatim>\<open>TypeError\<close>, and the keys that are no
  columns of the record type change nothing in what \<^verbatim>\<open>save\<close> writes to the table or
  to the log.
\<close>

theorem update_assigns_every_key_then_saves:
  assumes "list_all (plain_key cls) (map fst data)" and "distinct (map fst data)"
  shows "update cls ob e data = save cls (assign_all ob data) e
     \<and> list_all (\<lambda>(k, v). getattr_inst (assign_all ob data) k = v) data
     \<and> (\<forall>k. fst (update cls ob e data) \<noteq> Inl (AttributeError k))
     \<and> fst (update cls ob e data) \<noteq> Inl TypeError
     \<and> fst (update cls ob e data) \<noteq> Inl StateAttributeError
     \<and> snd (update cls ob e data)
         = snd (update cls ob e (filter (\<lambda>(k, v). k \<in> set (columns cls)) data))"
proof -
  let ?known = "filter (\<lambda>(k, v). k \<in> set (columns cls)) data"
  have u: "update cls ob e data = save cls (assign_all ob data) e"
    using assms(1) by (rule update_plain)
  have "set (map fst ?known) \<subseteq> set (map fst data)"
    by auto
  then have "list_all (plain_key cls) (map fst ?known)"
    using assms(1) unfolding list_all_iff by blast
  then have u': "update cls ob e ?known = save cls (assign_all ob ?known) e"
    by (rule update_plain)
  have a: "list_all (\<lambda>(k, v). getattr_inst (assign_all ob data) k = v) data"
    using assms(2) by (auto simp: list_all_iff getattr_assign_all_in)
  have n: "\<forall>k. fst (update cls ob e data) \<noteq> Inl (AttributeError k)"
    unfolding u using save_raises_typed_errors[of cls "assign_all ob data" e] by auto
  have t: "fst (update cls ob e data) \<noteq> Inl TypeError"
    unfolding u using save_raises_typed_errors[of cls "assign_all ob data" e] by auto
  have st: "fst (update cls ob e data) \<noteq> Inl StateAttributeError"
    unfolding u using save_raises_typed_errors[of cls "assign_all ob data" e] by auto
  have "snd (save cls (assign_all ob data) e) = snd (save cls (assign_all ob ?known) e)"
    by (rule save_env_cong) (simp_all add: identity_assign_all getattr_assign_all_filter)
  then have e: "snd (update cls ob e data) = snd (update cls ob e ?known)"
    using u u' by simp
  show ?thesis
    using u a n t st e by (intro conjI)
qed

theorem update_assigns_every_key_then_saves_witness:
  "list_all (plain_key Team) (map fst [(''nickname'', VStr ''b''), (''status'', VStr ''closed'')])
   \<and> distinct (map fst [(''nickname'', VStr ''b''), (''status'', VStr ''closed'')])
   \<and> update Team beta env1 [(''nickname'', VStr ''b''), (''status'', VStr ''closed'')]
       = save Team (assign_all beta [(''nickname'', VStr ''b''), (''status'', VStr ''closed'')])
           env1
   \<and> getattr_inst (assign_all beta [(''nickname'', VStr ''b''), (''status'', VStr ''closed'')])
         ''nickname'' = VStr ''b''
   \<and> getattr_inst (assign_all beta [(''nickname'', VStr ''b''), (''status'', VStr ''closed'')])
         ''status'' = VStr ''closed''
   \<and> snd (update Team beta env1 [(''nickname'', VStr ''b''), (''status'', VStr ''closed'')])
       = snd (update Team beta env1 [(''status'', VStr ''closed'')])"
proof -
  have c: "columns Team
      = [''id'', ''creator_id'', ''created_at'', ''updated_at'', ''name'', ''is_active'', ''status'']"
    by (simp add: columns_def Team_def)
  let ?data = "[(''nickname'', VStr ''b''), (''status'', VStr ''closed'')]"
  have p1: "list_all (plain_key Team) (map fst ?data)" by code_simp
  have p2: "distinct (map fst ?data)" by simp
  have f: "filter (\<lambda>(k, v). k \<in> set (columns Team)) ?data = [(''status'', VStr ''closed'')]"
    by (simp add: c)
  note t = update_assigns_every_key_then_saves [OF p1 p2, of beta env1]
  from t have t1: "update Team beta env1 ?data = save Team (assign_all beta ?data) env1"
    by (rule conjunct1)
  from t have t2: "list_all (\<lambda>(k, v). getattr_inst (assign_all beta ?data) k = v) ?data"
    by blast
  from t have t3: "snd (update Team beta env1 ?data)
      = snd (update Team beta env1 [(''status'', VStr ''closed'')])"
    unfolding f by blast
  from t2 have t4: "getattr_inst (assign_all beta ?data) ''nickname'' = VStr ''b''"
    and t5: "getattr_inst (assign_all beta ?data) ''status'' = VStr ''closed''"
    by simp_all
  show ?thesis
    using p1 p2 t1 t3 t4 t5 by (intro conjI)
qed

section \<open>The query of a filter request\<close>

lemma getattr_all_ok:
  "list_all (\<lambda>k. k \<in> set (columns cls)) ns \<Longrightarrow>
   getattr_all cls ns = Inr (map ColumnAttr ns)"
  by (induction ns) (auto simp: getattr_cls_def)

lemma ilike_all_columns: "ilike_all (map ColumnAttr ns) p = Inr (map (\<lambda>f. ILike f p) ns)"
  by (induction ns) auto

lemma build_search_like_string_stmt_ok:
  "list_all (\<lambda>k. k \<in> set (columns cls)) (search_like_fields cls) \<Longrightarrow>
   build_search_like_string_stmt cls stmt tok
     = Inr (sa_where stmt
              (sa_or (map (\<lambda>f. ILike f (sls_pattern tok)) (search_like_fields cls))))"
  by (simp add: build_search_like_string_stmt_def getattr_all_ok ilike_all_columns)

lemma build_conditions_ok:
  "list_all (\<lambda>(k, v). k \<in> set (columns cls)) fs \<Longrightarrow>
   build_conditions cls fs = Inr (map (\<lambda>(k, v). Eq k v) fs)"
  by (induction fs) (auto simp: getattr_cls_def)

lemma equality_filters_Nil: "equality_filters (Some []) = []"
  by (simp add: equality_filters_def dict_get_def)

lemma search_token_Nil: "search_token (Some []) = VNone"
  by (simp add: search_token_def dict_get_def)

lemma filters_block_filters:
  "fr_filters (snd (filters_block cls fr))
     = map_option (\<lambda>fs. equality_filters (Some fs)) (fr_filters fr)"
proof (cases "fr_filters fr")
  case None
  then show ?thesis by (simp add: filters_block_def)
next
  case (Some fs)
  show ?thesis
  proof (cases "fs = []")
    case True
    then show ?thesis using Some by (simp add: filters_block_def equality_filters_Nil)
  next
    case False
    then show ?thesis
      using Some
      by (simp add: filters_block_def equality_filters_def Let_def
            split: sum.splits option.splits)
  qed
qed

lemma filters_block_ok:
  assumes "filter_names_ok cls (fr_filters fr)"
  shows "filters_block cls fr =
     (None, fr\<lparr>fr_stmt := (fr_stmt fr)\<lparr>where_criteria :=
                    where_criteria (fr_stmt fr) @ search_criteria cls (fr_filters fr)\<rparr>,
               fr_conditions := fr_conditions fr @ equality_conds (fr_filters fr),
               fr_filters := map_option (\<lambda>fs. equality_filters (Some fs)) (fr_filters fr)\<rparr>)"
proof (cases "fr_filters fr")
  case None
  then show ?thesis
    by (simp add: filters_block_def search_criteria_def search_token_def equality_conds_def
          equality_filters_def)
next
  case (Some fs)
  show ?thesis
  proof (cases "fs = []")
    case True
    then show ?thesis
      using Some
      by (simp add: filters_block_def search_criteria_def search_token_Nil equality_conds_def
            equality_filters_Nil)
  next
    case False
    show ?thesis
    proof (cases "truthy (dict_get fs ''search_like_string'')")
      case t: True
      then have tok: "search_token (Some fs) = dict_get fs ''search_like_string''"
        and eqf: "equality_filters (Some fs) = AList.delete ''search_like_string'' fs"
        by (simp_all add: search_token_def equality_filters_def)
      from assms Some t have g: "\<And>stmt tok'. build_search_like_string_stmt cls stmt tok'
          = Inr (sa_where stmt
                   (sa_or (map (\<lambda>f. ILike f (sls_pattern tok')) (search_like_fields cls))))"
        by (simp add: filter_names_ok_def build_search_like_string_stmt_ok tok)
      from assms Some have b: "build_conditions cls (AList.delete ''search_like_string'' fs)
          = Inr (map (\<lambda>(k, v). Eq k v) (AList.delete ''search_like_string'' fs))"
        by (simp add: filter_names_ok_def build_conditions_ok eqf)
      show ?thesis
        using Some False t
        by (simp add: filters_block_def Let_def g b
              search_criteria_def tok eqf equality_conds_def sa_where_def)
    next
      case f: False
      then have tok: "search_token (Some fs) = dict_get fs ''search_like_string''"
        and eqf: "equality_filters (Some fs) = fs"
        by (simp_all add: search_token_def equality_filters_def)
      from assms Some have b: "build_conditions cls fs = Inr (map (\<lambda>(k, v). Eq k v) fs)"
        by (simp add: filter_names_ok_def build_conditions_ok eqf)
      show ?thesis
        using Some False f
        by (simp add: filters_block_def Let_def b search_criteria_def tok eqf equality_conds_def)
    qed
  qed
qed

lemma filter_query_caller_filters:
  "fst (snd (filter_query cls filters conditions srt))
     = map_option (\<lambda>fs. equality_filters (Some fs)) filters"
proof -
  obtain al c0 where c: "conditions_or_new conditions = (al, c0)"
    by (cases "conditions_or_new conditions")
  let ?fr0 = "\<lparr>fr_stmt = select_cls, fr_conditions = c0, fr_filters = filters\<rparr>"
  obtain err fr1 where b: "filters_block cls ?fr0 = (err, fr1)"
    by (cases "filters_block cls ?fr0")
  have "fr_filters fr1 = map_option (\<lambda>fs. equality_filters (Some fs)) filters"
    using filters_block_filters[of cls ?fr0] b by simp
  then show ?thesis
    by (simp add: filter_query_def c b Let_def split: option.splits sum.splits)
qed

lemma filter_query_ok:
  assumes "filter_names_ok cls filters" and "sort_names_ok cls srt"
  shows "filter_query cls filters conditions srt =
     (Inr (request_query cls filters conditions srt),
      map_option (\<lambda>fs. equality_filters (Some fs)) filters,
      caller_conditions_after filters conditions)"
proof -
  obtain al where c: "conditions_or_new conditions = (al, given_conditions conditions)"
    by (cases "conditions_or_new conditions")
       (auto simp: conditions_or_new_def given_conditions_def split: option.splits if_splits)
  have alT: "al \<Longrightarrow> caller_conditions_after filters conditions
      = Some (given_conditions conditions @ equality_conds filters)"
    using c by (auto simp: conditions_or_new_def caller_conditions_after_def
        given_conditions_def split: option.splits if_splits)
  have alF: "\<not> al \<Longrightarrow> caller_conditions_after filters conditions = conditions"
    using c by (auto simp: conditions_or_new_def caller_conditions_after_def
        given_conditions_def split: option.splits if_splits)
  let ?fr0 = "\<lparr>fr_stmt = select_cls, fr_conditions = given_conditions conditions,
               fr_filters = filters\<rparr>"
  let ?fr1 = "\<lparr>fr_stmt = select_cls\<lparr>where_criteria := search_criteria cls filters\<rparr>,
               fr_conditions = given_conditions conditions @ equality_conds filters,
               fr_filters = map_option (\<lambda>fs. equality_filters (Some fs)) filters\<rparr>"
  have b: "filters_block cls ?fr0 = (None, ?fr1)"
    using filters_block_ok[of cls ?fr0] assms(1) by (simp add: select_cls_def)
  have q: "filter_query cls filters conditions srt =
      (case (case srt of
               None \<Rightarrow> Inr (fr_stmt ?fr1)
             | Some s \<Rightarrow>
                 if sorting_truthy s then
                   (case build_sorting cls s of
                      Inl x \<Rightarrow> Inl x
                    | Inr cs \<Rightarrow> Inr (sa_order_by (fr_stmt ?fr1) cs))
                 else Inr (fr_stmt ?fr1)) of
         Inl x \<Rightarrow> (Inl x, fr_filters ?fr1, caller_conditions_after filters conditions)
       | Inr stmt \<Rightarrow>
           (Inr (sa_where stmt (sa_and (fr_conditions ?fr1))),
            fr_filters ?fr1, caller_conditions_after filters conditions))"
    by (cases al) (simp_all add: filter_query_def c b Let_def alT alF split: option.splits sum.splits)
  have e: "srt = Some s \<Longrightarrow> \<not> sorting_truthy s \<Longrightarrow> sort_clauses srt = []" for s
    by (cases s) (simp_all add: sort_clauses_def sort_entries_def)
  show ?thesis
  proof (cases srt)
    case None
    then show ?thesis
      unfolding q
      by (simp add: request_query_def sa_where_def select_cls_def sort_clauses_def
            sort_entries_def)
  next
    case (Some s)
    with assms(2) have bs: "build_sorting cls s = Inr (sort_clauses srt)"
      by (simp add: sort_names_ok_def sort_entries_def sort_clauses_def build_sorting_def
            build_sorting_loop_ok)
    show ?thesis
    proof (cases "sorting_truthy s")
      case True
      then show ?thesis
        unfolding q using Some
        by (simp add: request_query_def sa_where_def select_cls_def bs sa_order_by_def)
    next
      case False
      then show ?thesis
        unfolding q using Some e[OF Some False]
        by (simp add: request_query_def sa_where_def select_cls_def)
    qed
  qed
qed

lemma filter_op_caller_state:
  "snd (filter_op cls e filters conditions pg srt) = snd (filter_query cls filters conditions srt)"
  by (simp add: filter_op_def split: prod.splits sum.splits)

lemma filter_query_caller_conditions:
  assumes "filter_names_ok cls filters"
  shows "snd (snd (filter_query cls filters conditions srt))
     = caller_conditions_after filters conditions"
proof -
  obtain al where c: "conditions_or_new conditions = (al, given_conditions conditions)"
    by (cases "conditions_or_new conditions")
       (auto simp: conditions_or_new_def given_conditions_def split: option.splits if_splits)
  have alT: "al \<Longrightarrow> caller_conditions_after filters conditions
      = Some (given_conditions conditions @ equality_conds filters)"
    using c by (auto simp: conditions_or_new_def caller_conditions_after_def
        given_conditions_def split: option.splits if_splits)
  have alF: "\<not> al \<Longrightarrow> caller_conditions_after filters conditions = conditions"
    using c by (auto simp: conditions_or_new_def caller_conditions_after_def
        given_conditions_def split: option.splits if_splits)
  let ?fr0 = "\<lparr>fr_stmt = select_cls, fr_conditions = given_conditions conditions,
               fr_filters = filters\<rparr>"
  let ?fr1 = "\<lparr>fr_stmt = select_cls\<lparr>where_criteria := search_criteria cls filters\<rparr>,
               fr_conditions = given_conditions conditions @ equality_conds filters,
               fr_filters = map_option (\<lambda>fs. equality_filters (Some fs)) filters\<rparr>"
  have b: "filters_block cls ?fr0 = (None, ?fr1)"
    using filters_block_ok[of cls ?fr0] assms(1) by (simp add: select_cls_def)
  show ?thesis
    by (cases al)
       (simp_all add: filter_query_def c b Let_def alT alF split: option.splits sum.splits)
qed

lemma filter_query_unaliased:
  assumes "conditions = None \<or> conditions = Some []"
  shows "snd (snd (filter_query cls filters conditions srt)) = conditions"
proof -
  have c: "conditions_or_new conditions = (False, [])"
    using assms by (auto simp: conditions_or_new_def)
  show ?thesis
    by (simp add: filter_query_def c Let_def split: option.splits sum.splits prod.splits)
qed

text \<open>
  Claim C10, as stated, fails for an empty conditions list: \<^verbatim>\<open>conditions or []\<close>
  binds the local name to a new list, and the caller's list stays empty although an
  equality predicate was built.
\<close>

theorem filter_empty_conditions_counterexample:
  "snd (snd (filter_op Team env1 (Some [(''status'', VStr ''open'')]) (Some []) None None))
     = Some []
   \<and> build_conditions Team [(''status'', VStr ''open'')] = Inr [Eq ''status'' (VStr ''open'')]"
  by code_simp

text \<open>
  Claim C10, amended. \<^verbatim>\<open>filter\<close> mutates its caller's arguments: a reserved search
  key with a truthy value is removed from the caller's own filters mapping; when a
  non-empty conditions list is passed in (and the field lookups of the filters
  succeed), the equality predicates built from the remaining filters are appended to
  that same list; an empty list passed in is left as it is.
\<close>

theorem filter_mutates_caller_arguments:
  "(filters = Some fs \<and> truthy (dict_get fs ''search_like_string'') \<longrightarrow>
      fst (snd (filter_op cls e filters conditions pg srt))
        = Some (AList.delete ''search_like_string'' fs))
   \<and> (filter_names_ok cls filters \<and> conditions = Some cs \<and> cs \<noteq> [] \<longrightarrow>
      snd (snd (filter_op cls e filters conditions pg srt))
        = Some (cs @ map (\<lambda>(k, v). Eq k v) (equality_filters filters)))
   \<and> (conditions = Some [] \<longrightarrow>
      snd (snd (filter_op cls e filters conditions pg srt)) = Some [])"
proof (intro conjI impI)
  assume a: "filters = Some fs \<and> truthy (dict_get fs ''search_like_string'')"
  then show "fst (snd (filter_op cls e filters conditions pg srt))
      = Some (AList.delete ''search_like_string'' fs)"
    by (simp add: filter_op_caller_state filter_query_caller_filters equality_filters_def)
next
  assume a: "filter_names_ok cls filters \<and> conditions = Some cs \<and> cs \<noteq> []"
  then show "snd (snd (filter_op cls e filters conditions pg srt))
      = Some (cs @ map (\<lambda>(k, v). Eq k v) (equality_filters filters))"
    by (simp add: filter_op_caller_state filter_query_caller_conditions
          caller_conditions_after_def equality_conds_def)
next
  assume "conditions = Some []"
  then show "snd (snd (filter_op cls e filters conditions pg srt)) = Some []"
    by (simp add: filter_op_caller_state filter_query_unaliased)
qed

theorem filter_mutates_caller_arguments_witness:
  "truthy (dict_get [(''search_like_string'', VStr ''alpha''), (''status'', VStr ''open'')]
             ''search_like_string'')
   \<and> fst (snd (filter_op Team env1
        (Some [(''search_like_string'', VStr ''alpha''), (''status'', VStr ''open'')])
        (Some [Eq ''id'' (VInt 1)]) None None))
       = Some [(''status'', VStr ''open'')]
   \<and> filter_names_ok Team
        (Some [(''search_like_string'', VStr ''alpha''), (''status'', VStr ''open'')])
   \<and> snd (snd (filter_op Team env1
        (Some [(''search_like_string'', VStr ''alpha''), (''status'', VStr ''open'')])
        (Some [Eq ''id'' (VInt 1)]) None None))
       = Some [Eq ''id'' (VInt 1), Eq ''status'' (VStr ''open'')]
   \<and> snd (snd (filter_op Team env1
        (Some [(''search_like_string'', VStr ''alpha''), (''status'', VStr ''open'')])
        (Some []) None None))
       = Some []"
proof -
  let ?fs = "[(''search_like_string'', VStr ''alpha''), (''status'', VStr ''open'')]"
  have c: "columns Team
      = [''id'', ''creator_id'', ''created_at'', ''updated_at'', ''name'', ''is_active'', ''status'']"
    by (simp add: columns_def Team_def)
  have sf: "search_like_fields Team = [''name'']"
    by (simp add: Team_def)
  have t: "truthy (dict_get ?fs ''search_like_string'')"
    by (simp add: dict_get_def)
  have ef: "equality_filters (Some ?fs) = [(''status'', VStr ''open'')]"
    by (simp add: equality_filters_def dict_get_def)
  have ok: "filter_names_ok Team (Some ?fs)"
    by (simp add: filter_names_ok_def ef c sf search_token_def dict_get_def)
  have d: "AList.delete ''search_like_string'' ?fs = [(''status'', VStr ''open'')]"
    by simp
  note w1 = filter_mutates_caller_arguments
      [of "Some ?fs" ?fs Team env1 "Some [Eq ''id'' (VInt 1)]" None None "[Eq ''id'' (VInt 1)]"]
  note w2 = filter_mutates_caller_arguments
      [of "Some ?fs" ?fs Team env1 "Some []" None None "[]"]
  from w1 t have r1: "fst (snd (filter_op Team env1 (Some ?fs) (Some [Eq ''id'' (VInt 1)]) None None))
      = Some [(''status'', VStr ''open'')]"
    by (simp add: d)
  from w1 ok have r2: "snd (snd (filter_op Team env1 (Some ?fs) (Some [Eq ''id'' (VInt 1)]) None None))
      = Some [Eq ''id'' (VInt 1), Eq ''status'' (VStr ''open'')]"
    by (simp add: ef)
  from w2 have r3: "snd (snd (filter_op Team env1 (Some ?fs) (Some []) None None)) = Some []"
    by simp
  show ?thesis
    using t ok r1 r2 r3 by (intro conjI)
qed

lemma filter_op_ok:
  assumes "filter_names_ok cls filters" and "sort_names_ok cls srt"
  shows "fst (filter_op cls e filters conditions pg srt) =
     Inr (case pg of
            Some p \<Rightarrow>
              Page (db_execute_unique e
                      (sa_offset (sa_limit (request_query cls filters conditions srt)
                         (pg_limit p)) (pg_offset p)))
                   (db_count e (request_query cls filters conditions srt))
          | None \<Rightarrow> Rows (db_execute_unique e (request_query cls filters conditions srt)))"
  by (simp add: filter_op_def filter_query_ok[OF assms])






section \<open>Running a filter request\<close>

lemma list_all_equality_conds:
  "list_all (\<lambda>c. where_true c r) (map (\<lambda>(k, v). Eq k v) fs)
     = list_all (\<lambda>(k, v). col_val r k = v) fs"
  by (induction fs) (auto simp: where_true_Eq)

lemma where_true_sa_or_Nil: "where_true (sa_or []) r"
  by (simp add: where_true_def sa_or_def)

lemma stmt_holds_request_query:
  "stmt_holds (request_query cls filters conditions srt) r
     = request_matches cls filters conditions r"
  by (auto simp: stmt_holds_def request_query_def request_matches_def search_criteria_def
        where_true_sa_and where_true_sa_or_ilike where_true_sa_or_Nil equality_conds_def
        list_all_equality_conds)

lemma result_rows_cong:
  assumes "\<And>r. stmt_holds a r = stmt_holds b r"
    and "order_by_clauses a = order_by_clauses b"
    and "limit_clause a = limit_clause b" and "offset_clause a = offset_clause b"
  shows "result_rows tbl a = result_rows tbl b"
proof -
  have "stmt_holds a = stmt_holds b"
    using assms(1) by (rule ext)
  then show ?thesis
    using assms(2-4) by (simp add: result_rows_def apply_window_def)
qed

lemma result_rows_request_query:
  "result_rows tbl (request_query cls filters conditions srt)
     = order_rows (sort_clauses srt) (filter (request_matches cls filters conditions) tbl)"
proof -
  have "stmt_holds (request_query cls filters conditions srt)
      = request_matches cls filters conditions"
    by (rule ext) (rule stmt_holds_request_query)
  then show ?thesis
    by (simp add: result_rows_def apply_window_def request_query_def)
qed

lemma result_rows_page:
  "result_rows tbl (sa_offset (sa_limit (request_query cls filters conditions srt) n) k)
     = take n (drop k (order_rows (sort_clauses srt)
                         (filter (request_matches cls filters conditions) tbl)))"
proof -
  let ?q = "request_query cls filters conditions srt"
  have "stmt_holds (sa_offset (sa_limit ?q n) k) = request_matches cls filters conditions"
    by (rule ext)
       (simp add: stmt_holds_def sa_offset_def sa_limit_def
          stmt_holds_request_query[unfolded stmt_holds_def])
  then show ?thesis
    by (simp add: result_rows_def apply_window_def sa_offset_def sa_limit_def request_query_def)
qed

lemma db_count_request_query:
  "db_count e (request_query cls filters conditions srt)
     = length (filter (request_matches cls filters conditions) (db_table e))"
  by (simp add: db_count_def result_rows_request_query length_order_rows Let_def)










lemma dict_get_delete: "dict_get (AList.delete k fs) k = VNone"
  by (simp add: dict_get_def delete_conv')

text \<open>
  Claim C3. For a record type with no search-like fields the build step succeeds for
  every token and adds the OR group of no predicate to the statement. That group is
  true of every row (it is left out of the WHERE clause), so the statement holds of the
  same rows and selects the same rows from every table as before the step; and
  \<^verbatim>\<open>filter\<close> with a truthy token returns what it returns without the token.
\<close>

theorem no_search_fields_query_unaffected:
  assumes "search_like_fields cls = []"
  shows "build_search_like_string_stmt cls stmt tok = Inr (sa_where stmt (sa_or []))
     \<and> where_true (sa_or []) r
     \<and> stmt_holds (sa_where stmt (sa_or [])) r = stmt_holds stmt r
     \<and> result_rows tbl (sa_where stmt (sa_or [])) = result_rows tbl stmt
     \<and> (truthy (dict_get fs ''search_like_string'') \<and> filter_names_ok cls (Some fs)
          \<and> sort_names_ok cls srt \<longrightarrow>
        fst (filter_op cls e (Some fs) conditions pg srt)
          = fst (filter_op cls e (Some (AList.delete ''search_like_string'' fs))
                   conditions pg srt))"
proof -
  have 1: "build_search_like_string_stmt cls stmt tok = Inr (sa_where stmt (sa_or []))"
    using assms by (simp add: build_search_like_string_stmt_def)
  have 3: "stmt_holds (sa_where stmt (sa_or [])) r = stmt_holds stmt r" for r
    by (simp add: stmt_holds_def sa_where_def where_true_sa_or_Nil)
  have 4: "result_rows tbl (sa_where stmt (sa_or [])) = result_rows tbl stmt"
    by (rule result_rows_cong) (simp_all add: 3, simp_all add: sa_where_def)
  have 5: "fst (filter_op cls e (Some fs) conditions pg srt)
          = fst (filter_op cls e (Some (AList.delete ''search_like_string'' fs))
                   conditions pg srt)"
    if t: "truthy (dict_get fs ''search_like_string'')"
      and ok: "filter_names_ok cls (Some fs)" and so: "sort_names_ok cls srt"
  proof -
    let ?fs1 = "AList.delete ''search_like_string'' fs"
    have e1: "equality_filters (Some fs) = ?fs1"
      using t by (simp add: equality_filters_def)
    have e2: "equality_filters (Some ?fs1) = ?fs1"
      by (simp add: equality_filters_def dict_get_delete)
    have ok1: "filter_names_ok cls (Some ?fs1)"
      using ok by (simp add: filter_names_ok_def e1 e2 search_token_def dict_get_delete)
    have rm: "request_matches cls (Some ?fs1) conditions = request_matches cls (Some fs) conditions"
      by (rule ext) (simp add: request_matches_def e1 e2 assms)
    show ?thesis
      by (simp add: filter_op_ok[OF ok so] filter_op_ok[OF ok1 so] db_execute_unique_def
            result_rows_request_query result_rows_page db_count_request_query rm
            split: option.splits)
  qed
  show ?thesis
    using 1 3 4 5 where_true_sa_or_Nil by blast
qed

theorem no_search_fields_query_unaffected_witness:
  "search_like_fields (Team\<lparr>search_like_fields := []\<rparr>) = []
   \<and> truthy (dict_get [(''search_like_string'', VStr ''alpha'')] ''search_like_string'')
   \<and> filter_names_ok (Team\<lparr>search_like_fields := []\<rparr>) (Some [(''search_like_string'', VStr ''alpha'')])
   \<and> sort_names_ok (Team\<lparr>search_like_fields := []\<rparr>) None
   \<and> build_search_like_string_stmt (Team\<lparr>search_like_fields := []\<rparr>) select_cls (VStr ''alpha'')
       = Inr (sa_where select_cls (sa_or []))
   \<and> result_rows (db_table env1) (sa_where select_cls (sa_or []))
       = result_rows (db_table env1) select_cls
   \<and> fst (filter_op (Team\<lparr>search_like_fields := []\<rparr>) env1
             (Some [(''search_like_string'', VStr ''alpha'')]) None None None)
       = fst (filter_op (Team\<lparr>search_like_fields := []\<rparr>) env1 (Some []) None None None)"
proof -
  let ?cls = "Team\<lparr>search_like_fields := []\<rparr>"
  let ?fs = "[(''search_like_string'', VStr ''alpha'')]"
  have s: "search_like_fields ?cls = []" by simp
  have t: "truthy (dict_get ?fs ''search_like_string'')"
    by (simp add: dict_get_def)
  have ok: "filter_names_ok ?cls (Some ?fs)"
    by (simp add: filter_names_ok_def equality_filters_def dict_get_def)
  have so: "sort_names_ok ?cls None"
    by (simp add: sort_names_ok_def sort_entries_def)
  have d: "AList.delete ''search_like_string'' ?fs = []" by simp
  note w = no_search_fields_query_unaffected
      [OF s, of select_cls "VStr ''alpha''" "[]" "db_table env1" ?fs None env1 None None]
  from w have w1: "build_search_like_string_stmt ?cls select_cls (VStr ''alpha'')
       = Inr (sa_where select_cls (sa_or []))"
    by (rule conjunct1)
  from w have w2: "result_rows (db_table env1) (sa_where select_cls (sa_or []))
       = result_rows (db_table env1) select_cls"
    by blast
  from w t ok so have w3: "fst (filter_op ?cls env1 (Some ?fs) None None None)
       = fst (filter_op ?cls env1 (Some []) None None None)"
    unfolding d by blast
  show ?thesis
    using s t ok so w1 w2 w3 by (intro conjI)
qed

section \<open>Soft delete\<close>

lemma col_val_row_of:
  "k \<in> set (columns cls) \<Longrightarrow> col_val (row_of cls ob) k = getattr_inst ob k"
  by (simp add: col_val_def row_of_def map_of_map_restrict)

lemma getattr_load_inst: "getattr_inst (load_inst r) k = col_val r k"
  by (simp add: getattr_inst_def load_inst_def)

lemma is_active_in_columns: "soft_delete cls \<Longrightarrow> ''is_active'' \<in> set (columns cls)"
  by (simp add: columns_def)

lemma table_raise_validation_exception:
  "db_table (snd (raise_validation_exception cls exc e)) = db_table e"
  by (simp add: raise_validation_exception_def logger_def Let_def split: option.splits)

lemma save_failure:
  "db_flush cls ob e = Inl exc \<Longrightarrow>
   save cls ob e = (Inl (fst (raise_validation_exception cls exc e)),
                    snd (raise_validation_exception cls exc e))"
  by (simp add: save_def Let_def split: prod.splits)

lemma flush_persistent:
  assumes "identity ob = Some i"
  shows "db_flush cls ob e =
     (case db_check e (row_of cls ob) (filter (\<lambda>x. col_val x ''id'' \<noteq> i) (db_table e)) of
        Some exc \<Rightarrow> Inl exc
      | None \<Rightarrow>
          Inr (ob\<lparr>identity := Some (getattr_inst ob ''id'')\<rparr>,
               e\<lparr>db_table :=
                   map (\<lambda>x. if col_val x ''id'' = i then row_of cls ob else x) (db_table e)\<rparr>))"
  using assms by (simp add: db_flush_def Let_def)

lemma save_persistent_table_length:
  assumes "identity ob = Some i"
  shows "length (db_table (snd (save cls ob e))) = length (db_table e)"
  using assms
  by (simp add: save_def flush_persistent Let_def logger_def table_raise_validation_exception
        raise_validation_exception_def split: option.splits prod.splits)

lemma first_of_constant_list:
  assumes "xs \<noteq> []" and "\<And>x. x \<in> set xs \<Longrightarrow> x = a"
  shows "\<exists>ys. xs = a # ys"
  using assms by (cases xs) auto

lemma get_by_id_after_write:
  assumes r: "col_val r ''id'' = i"
    and ex: "list_ex (\<lambda>x. col_val x ''id'' = i) tbl"
    and t: "db_table e1 = map (\<lambda>x. if col_val x ''id'' = i then r else x) tbl"
  shows "get_by_id cls e1 i = Inr (Some (load_inst r))"
proof -
  let ?q = "sa_where select_cls (sa_and [Eq ''id'' i])"
  have h: "stmt_holds ?q = (\<lambda>x. col_val x ''id'' = i)"
    by (rule ext)
       (simp add: stmt_holds_def sa_where_def select_cls_def where_true_sa_and where_true_Eq)
  let ?rows = "result_rows (db_table e1) ?q"
  have rr: "?rows = order_rows [] (filter (\<lambda>x. col_val x ''id'' = i) (db_table e1))"
    by (simp add: result_rows_def apply_window_def sa_where_def select_cls_def
          h[unfolded sa_where_def select_cls_def, simplified])
  have all_r: "x = r" if "x \<in> set ?rows" for x
  proof -
    from that have "x \<in> set (filter (\<lambda>x. col_val x ''id'' = i) (db_table e1))"
      by (simp only: rr set_order_rows)
    then have m: "x \<in> set (db_table e1)" and xi: "col_val x ''id'' = i"
      by simp_all
    from m have "x \<in> (\<lambda>y. if col_val y ''id'' = i then r else y) ` set tbl"
      unfolding t by simp
    then obtain y where "x = (if col_val y ''id'' = i then r else y)"
      by (rule imageE)
    with xi show ?thesis
      by (cases "col_val y ''id'' = i") simp_all
  qed
  obtain x where x: "x \<in> set tbl" "col_val x ''id'' = i"
    using ex by (auto simp: list_ex_iff)
  then have "r \<in> set (db_table e1)"
    unfolding t by force
  then have "r \<in> set (filter (\<lambda>x. col_val x ''id'' = i) (db_table e1))"
    using r by simp
  then have "r \<in> set ?rows"
    by (simp only: rr set_order_rows)
  then have "?rows \<noteq> []" by auto
  then obtain ys where ys: "?rows = r # ys"
    using first_of_constant_list[of ?rows r] all_r by blast
  have "list_ex (\<lambda>x. col_val x ''id'' = i) (db_table e1)"
    using \<open>r \<in> set (db_table e1)\<close> r by (auto simp: list_ex_iff)
  then have "list_all (param_ok e1) (concat (map cond_params (where_criteria ?q)))"
    by (simp add: sa_where_def select_cls_def sa_and_def param_ok_def)
  then have "db_execute e1 ?q = Inr (db_execute_unique e1 ?q)"
    by (simp add: db_execute_def)
  then show ?thesis
    by (simp add: get_by_id_def get_one_by_filter_def db_execute_unique_def ys)
qed

lemma set_active_saved:
  assumes sd: "soft_delete cls"
    and pers: "identity ob = Some (VInt i)"
    and oid: "getattr_inst ob ''id'' = VInt i"
    and ex: "list_ex (\<lambda>r. col_val r ''id'' = VInt i) (db_table e)"
    and ok: "\<not> isl (db_flush cls (setattr_inst ob ''is_active'' (VBool b)) e)"
  shows "\<exists>ob1 found. fst (save cls (setattr_inst ob ''is_active'' (VBool b)) e) = Inr ob1
     \<and> get_by_id cls (snd (save cls (setattr_inst ob ''is_active'' (VBool b)) e)) (VInt i)
         = Inr (Some found)
     \<and> getattr_inst found ''is_active'' = VBool b
     \<and> getattr_inst found ''id'' = VInt i"
proof -
  let ?ob = "setattr_inst ob ''is_active'' (VBool b)"
  let ?r = "row_of cls ?ob"
  have pers': "identity ?ob = Some (VInt i)"
    using pers by (simp add: identity_setattr)
  have c: "db_check e ?r (filter (\<lambda>x. col_val x ''id'' \<noteq> VInt i) (db_table e)) = None"
    using ok by (simp add: flush_persistent[OF pers'] split: option.splits)
  let ?e1 = "e\<lparr>db_table := map (\<lambda>x. if col_val x ''id'' = VInt i then ?r else x) (db_table e)\<rparr>"
  have fl: "db_flush cls ?ob e = Inr (?ob\<lparr>identity := Some (getattr_inst ?ob ''id'')\<rparr>, ?e1)"
    by (simp add: flush_persistent[OF pers'] c)
  have rid: "col_val ?r ''id'' = VInt i"
    by (simp add: col_val_row_of id_in_columns getattr_setattr oid)
  have ract: "col_val ?r ''is_active'' = VBool b"
    by (simp add: col_val_row_of is_active_in_columns[OF sd] getattr_setattr)
  obtain ob1 e2 where s: "save cls ?ob e = (Inr ob1, e2)"
    and t: "db_table e2 = map (\<lambda>x. if col_val x ''id'' = VInt i then ?r else x) (db_table e)"
    by (simp add: save_def fl Let_def logger_def)
  have "get_by_id cls e2 (VInt i) = Inr (Some (load_inst ?r))"
    using rid ex t by (rule get_by_id_after_write)
  then show ?thesis
    using s rid ract by (simp add: getattr_load_inst)
qed

text \<open>
  Claim C8. On a soft-deletable record that is persistent (the session holds it under
  its id, and the table has a row of that id), \<^verbatim>\<open>delete\<close> is \<^verbatim>\<open>save\<close> of the
  record with the active flag set to false, and \<^verbatim>\<open>undelete\<close> is \<^verbatim>\<open>save\<close> of the
  record with the flag set to true. Neither changes the number of rows of the table.
  When the flush is accepted, the record is found by its id afterwards, with the flag
  as set; when the flush fails, the operation raises what the classifier of \<^verbatim>\<open>save\<close>
  makes of the failure, with its log entry.
\<close>

theorem soft_delete_flags_and_saves:
  assumes "soft_delete cls"
    and "identity ob = Some (VInt i)"
    and "getattr_inst ob ''id'' = VInt i"
    and "list_ex (\<lambda>r. col_val r ''id'' = VInt i) (db_table e)"
  shows "soft_delete_op cls ob e = save cls (setattr_inst ob ''is_active'' (VBool False)) e
     \<and> undelete cls ob e = save cls (setattr_inst ob ''is_active'' (VBool True)) e
     \<and> length (db_table (snd (soft_delete_op cls ob e))) = length (db_table e)
     \<and> length (db_table (snd (undelete cls ob e))) = length (db_table e)
     \<and> (\<not> isl (db_flush cls (setattr_inst ob ''is_active'' (VBool False)) e) \<longrightarrow>
          (\<exists>ob1 found. fst (soft_delete_op cls ob e) = Inr ob1
             \<and> get_by_id cls (snd (soft_delete_op cls ob e)) (VInt i) = Inr (Some found)
             \<and> getattr_inst found ''is_active'' = VBool False
             \<and> getattr_inst found ''id'' = VInt i))
     \<and> (\<not> isl (db_flush cls (setattr_inst ob ''is_active'' (VBool True)) e) \<longrightarrow>
          (\<exists>ob1 found. fst (undelete cls ob e) = Inr ob1
             \<and> get_by_id cls (snd (undelete cls ob e)) (VInt i) = Inr (Some found)
             \<and> getattr_inst found ''is_active'' = VBool True
             \<and> getattr_inst found ''id'' = VInt i))
     \<and> (db_flush cls (setattr_inst ob ''is_active'' (VBool False)) e = Inl exc \<longrightarrow>
          soft_delete_op cls ob e
            = (Inl (fst (raise_validation_exception cls exc e)),
               snd (raise_validation_exception cls exc e)))
     \<and> (db_flush cls (setattr_inst ob ''is_active'' (VBool True)) e = Inl exc \<longrightarrow>
          undelete cls ob e
            = (Inl (fst (raise_validation_exception cls exc e)),
               snd (raise_validation_exception cls exc e)))"
proof -
  have p: "identity (setattr_inst ob ''is_active'' (VBool b)) = Some (VInt i)" for b
    using assms(2) by (simp add: identity_setattr)
  show ?thesis
    unfolding soft_delete_op_def undelete_def
    using set_active_saved[OF assms, of False] set_active_saved[OF assms, of True]
      save_persistent_table_length[OF p] save_failure
    by (intro conjI impI) simp_all
qed

theorem soft_delete_flags_and_saves_witness:
  "soft_delete Team
   \<and> identity beta = Some (VInt 2)
   \<and> getattr_inst beta ''id'' = VInt 2
   \<and> list_ex (\<lambda>r. col_val r ''id'' = VInt 2) (db_table env1)
   \<and> \<not> isl (db_flush Team (setattr_inst beta ''is_active'' (VBool False)) env1)
   \<and> length (db_table (snd (soft_delete_op Team beta env1))) = length (db_table env1)
   \<and> (\<exists>ob1 found. fst (soft_delete_op Team beta env1) = Inr ob1
         \<and> get_by_id Team (snd (soft_delete_op Team beta env1)) (VInt 2) = Inr (Some found)
         \<and> getattr_inst found ''is_active'' = VBool False
         \<and> getattr_inst found ''id'' = VInt 2)
   \<and> db_flush Team (setattr_inst beta ''is_active'' (VBool False))
        (env1\<lparr>db_check := (\<lambda>r rs. Some (failure [fk_msg]))\<rparr>) = Inl (failure [fk_msg])
   \<and> soft_delete_op Team beta (env1\<lparr>db_check := (\<lambda>r rs. Some (failure [fk_msg]))\<rparr>)
       = (Inl (fst (raise_validation_exception Team (failure [fk_msg])
                      (env1\<lparr>db_check := (\<lambda>r rs. Some (failure [fk_msg]))\<rparr>))),
          snd (raise_validation_exception Team (failure [fk_msg])
                 (env1\<lparr>db_check := (\<lambda>r rs. Some (failure [fk_msg]))\<rparr>)))"
proof -
  let ?bad = "env1\<lparr>db_check := (\<lambda>r rs. Some (failure [fk_msg]))\<rparr>"
  have a1: "soft_delete Team" by (simp add: Team_def)
  have a2: "identity beta = Some (VInt 2)"
    by (simp add: beta_def load_inst_def team_row_def col_val_def)
  have a3: "getattr_inst beta ''id'' = VInt 2"
    by (simp add: beta_def load_inst_def team_row_def col_val_def getattr_inst_def)
  have a4: "list_ex (\<lambda>r. col_val r ''id'' = VInt 2) (db_table env1)"
    by (simp add: env1_def team_row_def col_val_def)
  have a4': "list_ex (\<lambda>r. col_val r ''id'' = VInt 2) (db_table ?bad)"
    using a4 by simp
  have p: "identity (setattr_inst beta ''is_active'' (VBool False)) = Some (VInt 2)"
    using a2 by (simp add: identity_setattr)
  have ok: "\<not> isl (db_flush Team (setattr_inst beta ''is_active'' (VBool False)) env1)"
    by (simp add: flush_persistent[OF p] env1_def)
  have bad: "db_flush Team (setattr_inst beta ''is_active'' (VBool False)) ?bad
      = Inl (failure [fk_msg])"
    by (simp add: flush_persistent[OF p])
  note w = soft_delete_flags_and_saves [OF a1 a2 a3 a4, of "failure [fk_msg]"]
  note v = soft_delete_flags_and_saves [OF a1 a2 a3 a4', of "failure [fk_msg]"]
  from w have w1: "length (db_table (snd (soft_delete_op Team beta env1))) = length (db_table env1)"
    by blast
  from w ok have w2: "\<exists>ob1 found. fst (soft_delete_op Team beta env1) = Inr ob1
         \<and> get_by_id Team (snd (soft_delete_op Team beta env1)) (VInt 2) = Inr (Some found)
         \<and> getattr_inst found ''is_active'' = VBool False
         \<and> getattr_inst found ''id'' = VInt 2"
    by blast
  from v bad have v1: "soft_delete_op Team beta ?bad
       = (Inl (fst (raise_validation_exception Team (failure [fk_msg]) ?bad)),
          snd (raise_validation_exception Team (failure [fk_msg]) ?bad))"
    by blast
  show ?thesis
    using a1 a2 a3 a4 ok w1 w2 bad v1 by (intro conjI)
qed

section \<open>The search-like predicate\<close>

lemma like_match_percent:
  "like_match (CHR ''%'' # ps) s = list_ex (like_match ps) (tails s)"
  by (induction s) simp_all

lemma like_match_literal:
  "c \<noteq> CHR ''%'' \<Longrightarrow> c \<noteq> CHR ''_'' \<Longrightarrow> c \<noteq> CHR 0x5C \<Longrightarrow>
   like_match (c # ps) s = (case s of [] \<Rightarrow> False | d # t \<Rightarrow> d = c \<and> like_match ps t)"
  by simp

lemma split_on_space_not_Nil: "split_on_space t \<noteq> []"
  by (induction t) (auto split: list.splits)

lemma like_match_words:
  "like_meta_free t \<Longrightarrow>
   like_match (map sp2pct t @ ''%'') s
     = (case split_on_space t of
          [] \<Rightarrow> False
        | w # ws \<Rightarrow> take (length w) s = w \<and> words_in_order ws (drop (length w) s))"
proof (induction t arbitrary: s)
  case Nil
  have "list_ex (like_match []) (tails s)"
    by (induction s) simp_all
  then show ?case
    by (simp add: like_match_percent del: like_match.simps)
next
  case (Cons c cs)
  then have mf: "like_meta_free cs"
    and c: "c \<noteq> CHR ''%''" "c \<noteq> CHR ''_''" "c \<noteq> CHR 0x5C"
    by (simp_all add: like_meta_free_def)
  obtain w ws where sp: "split_on_space cs = w # ws"
    using split_on_space_not_Nil[of cs] by (cases "split_on_space cs") auto
  have ih: "like_match (map sp2pct cs @ ''%'') u
      = (take (length w) u = w \<and> words_in_order ws (drop (length w) u))" for u
    using Cons.IH[OF mf, of u] sp by simp
  have ihf: "like_match (map sp2pct cs @ ''%'')
      = (\<lambda>u. take (length w) u = w \<and> words_in_order ws (drop (length w) u))"
    by (rule ext) (rule ih)
  show ?case
  proof (cases "c = CHR '' ''")
    case True
    have "like_match (map sp2pct (c # cs) @ ''%'') s
        = list_ex (like_match (map sp2pct cs @ ''%'')) (tails s)"
      using True by (simp add: sp2pct_def like_match_percent del: like_match.simps)
    also have "\<dots> = words_in_order (w # ws) s"
      using ihf by simp
    finally show ?thesis
      using True sp by simp
  next
    case False
    have "like_match (map sp2pct (c # cs) @ ''%'') s
        = (case s of [] \<Rightarrow> False | d # u \<Rightarrow> d = c \<and> like_match (map sp2pct cs @ ''%'') u)"
      using False c by (simp add: sp2pct_def del: like_match.simps add: like_match_literal)
    also have "\<dots> = (take (length (c # w)) s = c # w
        \<and> words_in_order ws (drop (length (c # w)) s))"
      by (cases s) (auto simp: ih)
    finally show ?thesis
      using False sp by simp
  qed
qed

lemma like_match_pattern_words:
  assumes "like_meta_free t"
  shows "like_match (CHR ''%'' # map sp2pct t @ ''%'') s = words_in_order (split_on_space t) s"
proof -
  obtain w ws where sp: "split_on_space t = w # ws"
    using split_on_space_not_Nil[of t] by (cases "split_on_space t") auto
  have f: "like_match (map sp2pct t @ ''%'')
      = (\<lambda>u. take (length w) u = w \<and> words_in_order ws (drop (length w) u))"
    by (rule ext) (simp add: like_match_words[OF assms] sp)
  have "like_match (CHR ''%'' # map sp2pct t @ ''%'') s
      = list_ex (like_match (map sp2pct t @ ''%'')) (tails s)"
    by (simp only: like_match_percent)
  also have "\<dots> = words_in_order (w # ws) s"
    using f by simp
  finally show ?thesis
    by (simp add: sp)
qed

lemma sls_pattern_VStr: "sls_pattern (VStr t) = CHR ''%'' # map sp2pct t @ ''%''"
  by (simp add: sls_pattern_def sp2pct_def)

lemma of_char_lower_char:
  "(of_char (lower_char c) :: nat)
     = (if 65 \<le> (of_char c :: nat) \<and> (of_char c :: nat) \<le> 90 then of_char c + 32 else of_char c)"
  by (simp add: lower_char_def)

lemma char_eq_via_code: "(c = d) = ((of_char c :: nat) = of_char d)"
  by simp

lemma lower_char_space: "(lower_char c = CHR '' '') = (c = CHR '' '')"
  by (simp add: char_eq_via_code[of _ "CHR '' ''"] of_char_lower_char)

lemma lower_char_percent: "(lower_char c = CHR ''%'') = (c = CHR ''%'')"
  by (simp add: char_eq_via_code[of _ "CHR ''%''"] of_char_lower_char)

lemma lower_char_underscore: "c \<noteq> CHR ''_'' \<Longrightarrow> lower_char c \<noteq> CHR ''_''"
  by (simp add: char_eq_via_code[of _ "CHR ''_''"] of_char_lower_char)

lemma lower_char_backslash: "c \<noteq> CHR 0x5C \<Longrightarrow> lower_char c \<noteq> CHR 0x5C"
  by (simp add: char_eq_via_code[of _ "CHR 0x5C"] of_char_lower_char)

lemma like_meta_free_lower: "like_meta_free t \<Longrightarrow> like_meta_free (map lower_char t)"
  by (induction t)
     (auto simp: like_meta_free_def lower_char_percent lower_char_underscore lower_char_backslash)

lemma lower_sp2pct: "lower_char (sp2pct c) = sp2pct (lower_char c)"
  using lower_char_space[of c] lower_char_percent[of "CHR ''%''"]
  by (auto simp: sp2pct_def)

lemma lower_pattern:
  "map lower_char (CHR ''%'' # map sp2pct t @ ''%'')
     = CHR ''%'' # map sp2pct (map lower_char t) @ ''%''"
  using lower_char_percent[of "CHR ''%''"] by (simp add: lower_sp2pct)

lemma ilike_words:
  assumes "like_meta_free t"
  shows "ilike_match (sls_pattern (VStr t)) s
     = words_in_order (split_on_space (map lower_char t)) (map lower_char s)"
  unfolding ilike_match_def sls_pattern_VStr lower_pattern
  by (rule like_match_pattern_words) (rule like_meta_free_lower[OF assms])

text \<open>
  Claim C6, as stated, fails for a token with a character that \<^verbatim>\<open>LIKE\<close> reads as a
  wildcard: the token is put into the pattern unescaped. The token \<^verbatim>\<open>_\<close> gives the
  pattern \<^verbatim>\<open>%_%\<close>, and the predicate selects a row whose name is \<^verbatim>\<open>x\<close>, which
  does not contain the token.
\<close>

theorem search_token_wildcard_counterexample:
  "build_search_like_string_stmt Team select_cls (VStr ''_'')
     = Inr (sa_where select_cls (sa_or [ILike ''name'' ''%_%'']))
   \<and> result_rows [[(''name'', VStr ''x'')]] (sa_where select_cls (sa_or [ILike ''name'' ''%_%'']))
       = [[(''name'', VStr ''x'')]]
   \<and> \<not> words_in_order (split_on_space (map lower_char ''_'')) (map lower_char ''x'')"
  by code_simp

text \<open>
  Claim C6, amended. For every search token without the characters percent, underscore
  and backslash, and every record type whose search-like fields are attributes and not
  none, the build step adds one criterion to the statement: the OR group of one
  \<^verbatim>\<open>ILIKE\<close> predicate per search-like field. The predicate of a field holds of a row
  exactly when the field is a text that contains, compared in lower case, the words of
  the token (its pieces between spaces) in their order, with any text before, between
  and after them. The new statement holds of a row exactly when the old one does and
  the predicate of some field holds.
\<close>

theorem search_like_predicate_per_field:
  assumes "like_meta_free t"
    and "search_like_fields cls \<noteq> []"
    and "list_all (\<lambda>f. f \<in> set (columns cls)) (search_like_fields cls)"
  shows "build_search_like_string_stmt cls stmt (VStr t)
       = Inr (sa_where stmt
                (sa_or (map (\<lambda>f. ILike f (sls_pattern (VStr t))) (search_like_fields cls))))
     \<and> sls_pattern (VStr t) = ''%'' @ map (\<lambda>c. if c = CHR '' '' then CHR ''%'' else c) t @ ''%''
     \<and> where_true (ILike f (sls_pattern (VStr t))) r
         = (case col_val r f of
              VStr s \<Rightarrow>
                words_in_order (split_on_space (map lower_char t)) (map lower_char s)
            | _ \<Rightarrow> False)
     \<and> stmt_holds
          (sa_where stmt
             (sa_or (map (\<lambda>f. ILike f (sls_pattern (VStr t))) (search_like_fields cls)))) r
         = (stmt_holds stmt r
            \<and> list_ex (\<lambda>f. where_true (ILike f (sls_pattern (VStr t))) r)
                 (search_like_fields cls))"
proof -
  have 1: "build_search_like_string_stmt cls stmt (VStr t)
       = Inr (sa_where stmt
                (sa_or (map (\<lambda>f. ILike f (sls_pattern (VStr t))) (search_like_fields cls))))"
    using assms(3) by (rule build_search_like_string_stmt_ok)
  have 2: "sls_pattern (VStr t)
      = ''%'' @ map (\<lambda>c. if c = CHR '' '' then CHR ''%'' else c) t @ ''%''"
    by (simp add: sls_pattern_def)
  have 3: "where_true (ILike f (sls_pattern (VStr t))) r
         = (case col_val r f of
              VStr s \<Rightarrow>
                words_in_order (split_on_space (map lower_char t)) (map lower_char s)
            | _ \<Rightarrow> False)" for f
    by (simp add: where_true_def ilike_words[OF assms(1)] split: val.splits)
  have w: "(\<lambda>f. case col_val r f of VStr s \<Rightarrow> ilike_match (sls_pattern (VStr t)) s | _ \<Rightarrow> False)
      = (\<lambda>f. where_true (ILike f (sls_pattern (VStr t))) r)"
    by (rule ext) (simp add: where_true_def)
  have 4: "stmt_holds
          (sa_where stmt
             (sa_or (map (\<lambda>f. ILike f (sls_pattern (VStr t))) (search_like_fields cls)))) r
         = (stmt_holds stmt r
            \<and> list_ex (\<lambda>f. where_true (ILike f (sls_pattern (VStr t))) r)
                 (search_like_fields cls))"
    using assms(2) by (simp add: stmt_holds_def sa_where_def where_true_sa_or_ilike w)
  show ?thesis
    using 1 2 3 4 by (intro conjI)
qed

theorem search_like_predicate_per_field_witness:
  "like_meta_free ''alpha team''
   \<and> search_like_fields Team \<noteq> []
   \<and> list_all (\<lambda>f. f \<in> set (columns Team)) (search_like_fields Team)
   \<and> build_search_like_string_stmt Team select_cls (VStr ''alpha team'')
       = Inr (sa_where select_cls (sa_or [ILike ''name'' ''%alpha%team%'']))
   \<and> where_true (ILike ''name'' ''%alpha%team%'') (team_row 1 ''Alpha Team'' ''open'' True)
   \<and> \<not> where_true (ILike ''name'' ''%alpha%team%'') (team_row 2 ''Beta Squad'' ''open'' True)"
proof -
  have c: "columns Team
      = [''id'', ''creator_id'', ''created_at'', ''updated_at'', ''name'', ''is_active'', ''status'']"
    by (simp add: columns_def Team_def)
  have sf: "search_like_fields Team = [''name'']"
    by (simp add: Team_def)
  have a1: "like_meta_free ''alpha team''"
    by (simp add: like_meta_free_def)
  have a2: "search_like_fields Team \<noteq> []"
    by (simp add: sf)
  have a3: "list_all (\<lambda>f. f \<in> set (columns Team)) (search_like_fields Team)"
    by (simp add: sf c)
  have p: "sls_pattern (VStr ''alpha team'') = ''%alpha%team%''"
    by (simp add: sls_pattern_def)
  have l1: "map lower_char ''alpha team'' = ''alpha team''"
    by code_simp
  have l2: "map lower_char ''Alpha Team'' = ''alpha team''"
    by code_simp
  have l3: "map lower_char ''Beta Squad'' = ''beta squad''"
    by code_simp
  have n1: "col_val (team_row 1 ''Alpha Team'' ''open'' True) ''name'' = VStr ''Alpha Team''"
    by (simp add: team_row_def col_val_def)
  have n2: "col_val (team_row 2 ''Beta Squad'' ''open'' True) ''name'' = VStr ''Beta Squad''"
    by (simp add: team_row_def col_val_def)
  have y: "words_in_order (split_on_space ''alpha team'') ''alpha team''"
    by code_simp
  have n: "\<not> words_in_order (split_on_space ''alpha team'') ''beta squad''"
    by code_simp
  note w1 = search_like_predicate_per_field
      [OF a1 a2 a3, of select_cls "''name''" "team_row 1 ''Alpha Team'' ''open'' True"]
  note w2 = search_like_predicate_per_field
      [OF a1 a2 a3, of select_cls "''name''" "team_row 2 ''Beta Squad'' ''open'' True"]
  from w1 have b0: "build_search_like_string_stmt Team select_cls (VStr ''alpha team'')
       = Inr (sa_where select_cls
                (sa_or (map (\<lambda>f. ILike f (sls_pattern (VStr ''alpha team'')))
                          (search_like_fields Team))))"
    by (rule conjunct1)
  have b: "build_search_like_string_stmt Team select_cls (VStr ''alpha team'')
       = Inr (sa_where select_cls (sa_or [ILike ''name'' ''%alpha%team%'']))"
    using b0 by (simp only: p sf list.map)
  from w1 have e1: "where_true (ILike ''name'' (sls_pattern (VStr ''alpha team'')))
        (team_row 1 ''Alpha Team'' ''open'' True)
      = (case col_val (team_row 1 ''Alpha Team'' ''open'' True) ''name'' of
           VStr s \<Rightarrow> words_in_order (split_on_space (map lower_char ''alpha team''))
                      (map lower_char s)
         | _ \<Rightarrow> False)"
    by (elim conjE)
  from w2 have e2: "where_true (ILike ''name'' (sls_pattern (VStr ''alpha team'')))
        (team_row 2 ''Beta Squad'' ''open'' True)
      = (case col_val (team_row 2 ''Beta Squad'' ''open'' True) ''name'' of
           VStr s \<Rightarrow> words_in_order (split_on_space (map lower_char ''alpha team''))
                      (map lower_char s)
         | _ \<Rightarrow> False)"
    by (elim conjE)
  have m1: "where_true (ILike ''name'' ''%alpha%team%'')
      (team_row 1 ''Alpha Team'' ''open'' True)"
    using e1 y by (simp only: p n1 l1 l2 val.case)
  have m2: "\<not> where_true (ILike ''name'' ''%alpha%team%'')
      (team_row 2 ''Beta Squad'' ''open'' True)"
    using e2 n by (simp only: p n2 l1 l3 val.case) simp
  show ?thesis
    using a1 a2 a3 b m1 m2 by (intro conjI)
qed
end
